theory Spec2Isabelle
  imports Main
begin

section \<open>Python values, exceptions and string operations\<close>

text \<open>
  The Lambda functions of the repository are Python. Exceptions are values of type
  \<open>exn\<close>; a computation that may raise returns \<open>exn + 'a\<close> (\<open>Inl\<close> is the raise).
  \<open>ClientError\<close> is botocore's error (error code, operation, message), \<open>RequestError\<close>
  is opensearch-py's, \<open>PyError\<close> is any other exception (class name, message).
\<close>

datatype exn =
    ClientError string string string
  | RequestError string
  | PyError string string

text \<open>\<open>str(e)\<close>, which the code searches for substrings and copies into responses.\<close>

fun str_of :: "exn \<Rightarrow> string" where
  "str_of (ClientError code op m) =
     ''An error occurred ('' @ code @ '') when calling the '' @ op @ '' operation: '' @ m"
| "str_of (RequestError m) = m"
| "str_of (PyError cls m) = m"

text \<open>
  JSON values, as \<open>json.loads\<close> returns them and \<open>json.dumps\<close> takes them. The keys of an
  object are distinct (the parser keeps one binding for a key).
\<close>

datatype json =
    JNull
  | JBool bool
  | JNum int
  | JStr string
  | JArr "json list"
  | JObj "(string \<times> json) list"

text \<open>Python's truth value of a JSON value (\<open>if not x\<close>).\<close>

fun truthy :: "json \<Rightarrow> bool" where
  "truthy JNull = False"
| "truthy (JBool b) = b"
| "truthy (JNum n) = (n \<noteq> 0)"
| "truthy (JStr s) = (s \<noteq> [])"
| "truthy (JArr xs) = (xs \<noteq> [])"
| "truthy (JObj kvs) = (kvs \<noteq> [])"

text \<open>\<open>d.get(k, default)\<close>: AttributeError when \<open>d\<close> is not a dict.\<close>

fun py_get :: "json \<Rightarrow> string \<Rightarrow> json \<Rightarrow> exn + json" where
  "py_get (JObj kvs) k d = Inr (case map_of kvs k of None \<Rightarrow> d | Some v \<Rightarrow> v)"
| "py_get j k d = Inl (PyError ''AttributeError'' ''object has no attribute get'')"

text \<open>\<open>s.startswith(p)\<close>.\<close>

fun startswith :: "string \<Rightarrow> string \<Rightarrow> bool" where
  "startswith s [] = True"
| "startswith [] (p # ps) = False"
| "startswith (c # cs) (p # ps) = (c = p \<and> startswith cs ps)"

text \<open>\<open>s.split(sep)\<close> for a one-character separator.\<close>

fun split_chr :: "char \<Rightarrow> string \<Rightarrow> string list" where
  "split_chr sep [] = [[]]"
| "split_chr sep (c # cs) =
     (if c = sep then [] # split_chr sep cs
      else (case split_chr sep cs of
              [] \<Rightarrow> [[c]]
            | p # ps \<Rightarrow> (c # p) # ps))"

text \<open>\<open>xs[i]\<close> for \<open>i \<ge> 0\<close>: IndexError out of range.\<close>

definition py_index :: "'a list \<Rightarrow> nat \<Rightarrow> exn + 'a" where
  "py_index xs i =
     (if i < length xs then Inr (xs ! i)
      else Inl (PyError ''IndexError'' ''list index out of range''))"

text \<open>
  Strings are lists of characters with the codes 0 to 255, read as the code points
  U+0000 to U+00FF. \<open>s.lower()\<close> on them: the letters \<open>A\<close> to \<open>Z\<close> and the capital
  letters U+00C0 to U+00DE (without the multiplication sign U+00D7) move up by 32; every
  other character of the range is its own lower case.
\<close>

definition lower_chr :: "char \<Rightarrow> char" where
  "lower_chr c =
     (let n = (of_char c :: nat) in
      if (65 \<le> n \<and> n \<le> 90) \<or> (192 \<le> n \<and> n \<le> 222 \<and> n \<noteq> 215) then char_of (n + 32)
      else c)"

definition lower :: "string \<Rightarrow> string" where
  "lower s = map lower_chr s"

text \<open>\<open>needle in haystack\<close> on strings.\<close>

fun contains :: "string \<Rightarrow> string \<Rightarrow> bool" where
  "contains [] needle = (needle = [])"
| "contains (c # cs) needle = (startswith (c # cs) needle \<or> contains cs needle)"

section \<open>base64.b64decode\<close>

text \<open>
  \<open>base64.b64decode(s)\<close> with its default \<open>validate=False\<close>, as CPython's
  \<open>binascii.a2b_base64\<close> computes it: a character outside the standard alphabet
  (\<open>A-Z a-z 0-9 + /\<close>) is skipped, so the URL-safe characters \<open>-\<close> and \<open>_\<close> are dropped;
  a complete pad sequence ends the decoding; leftover characters of a quad raise
  \<open>binascii.Error\<close>. A \<open>str\<close> argument with a character above 127 raises ValueError.
\<close>

definition b64_value :: "char \<Rightarrow> nat option" where
  "b64_value c =
     (let n = (of_char c :: nat) in
      if 65 \<le> n \<and> n \<le> 90 then Some (n - 65)
      else if 97 \<le> n \<and> n \<le> 122 then Some (n - 71)
      else if 48 \<le> n \<and> n \<le> 57 then Some (n + 4)
      else if n = 43 then Some 62
      else if n = 47 then Some 63
      else None)"

definition emit :: "nat \<Rightarrow> exn + string \<Rightarrow> exn + string" where
  "emit b r = (case r of Inl e \<Rightarrow> Inl e | Inr bs \<Rightarrow> Inr (char_of b # bs))"

fun a2b_base64 :: "string \<Rightarrow> nat \<Rightarrow> nat \<Rightarrow> nat \<Rightarrow> exn + string" where
  "a2b_base64 [] quad_pos leftchar pads =
     (if quad_pos = 0 then Inr []
      else if quad_pos = 1 then
        Inl (PyError ''binascii.Error'' ''Invalid base64-encoded string'')
      else Inl (PyError ''binascii.Error'' ''Incorrect padding''))"
| "a2b_base64 (c # cs) quad_pos leftchar pads =
     (if c = CHR ''='' then
        (if 2 \<le> quad_pos \<and> 4 \<le> quad_pos + (pads + 1) then Inr []
         else a2b_base64 cs quad_pos leftchar (if 2 \<le> quad_pos then pads + 1 else pads))
      else
        (case b64_value c of
           None \<Rightarrow> a2b_base64 cs quad_pos leftchar pads
         | Some v \<Rightarrow>
             (if quad_pos = 0 then a2b_base64 cs 1 v 0
              else if quad_pos = 1 then
                emit (leftchar * 4 + v div 16) (a2b_base64 cs 2 (v mod 16) 0)
              else if quad_pos = 2 then
                emit (leftchar * 16 + v div 4) (a2b_base64 cs 3 (v mod 4) 0)
              else emit (leftchar * 64 + v) (a2b_base64 cs 0 0 0))))"

definition b64decode :: "string \<Rightarrow> exn + string" where
  "b64decode s =
     (if \<exists>c \<in> set s. 128 \<le> (of_char c :: nat) then
        Inl (PyError ''ValueError'' ''string argument should contain only ASCII characters'')
      else a2b_base64 s 0 0 0)"

section \<open>API Gateway events and responses\<close>

text \<open>
  The proxy event of API Gateway, as far as the handlers read it. \<open>ev_headers\<close> is
  \<open>event.get('headers', {})\<close>: \<open>None\<close> is a JSON null, an absent key is the empty map.
  \<open>ev_body\<close> is \<open>None\<close> when the event has no \<open>body\<close> key; otherwise it holds what
  \<open>json.loads\<close> makes of the body, or the exception it raises. \<open>ev_pathParameters\<close> is
  \<open>None\<close> for a missing or null entry.
\<close>

record event =
  ev_headers :: "(string \<rightharpoonup> string) option"
  ev_body :: "(exn + json) option"
  ev_pathParameters :: "(string \<rightharpoonup> string) option"

text \<open>A response; \<open>resp_body\<close> is the value handed to \<open>json.dumps\<close>.\<close>

record response =
  statusCode :: nat
  resp_headers :: "(string \<times> string) list"
  resp_body :: json

definition cors_headers :: "(string \<times> string) list" where
  "cors_headers =
     [(''Content-Type'', ''application/json''), (''Access-Control-Allow-Origin'', ''*'')]"

section \<open>extract\_user\_details (invoke\_agent.py, get\_conversation\_messages.py)\<close>

text \<open>
  The two files define the same function (they differ in log lines only). The library
  calls \<open>bytes.decode('utf-8')\<close> and \<open>json.loads\<close> are one parameter \<open>loads\<close>, from the
  decoded bytes to the parsed value or the exception raised.
\<close>

record user_details =
  userId :: json
  username :: json
  email :: json

definition anonymous :: user_details where
  "anonymous =
     \<lparr>userId = JStr ''anonymous'', username = JStr ''anonymous'', email = JStr ''anonymous''\<rparr>"

text \<open>\<open>headers.get('Authorization') or headers.get('authorization')\<close>.\<close>

definition auth_header :: "(string \<rightharpoonup> string) \<Rightarrow> string option" where
  "auth_header hs =
     (case hs ''Authorization'' of
        None \<Rightarrow> hs ''authorization''
      | Some v \<Rightarrow> if v \<noteq> [] then Some v else hs ''authorization'')"

text \<open>The padding step: \<open>padding = 4 - (len(payload) % 4)\<close>, added unless it is 4.\<close>

definition add_padding :: "string \<Rightarrow> string" where
  "add_padding payload =
     (let padding = 4 - length payload mod 4
      in if padding \<noteq> 4 then payload @ replicate padding (CHR ''='') else payload)"

text \<open>The body of the inner \<open>try\<close>: split the token, decode the payload, read the claims.\<close>

definition token_details :: "(string \<Rightarrow> exn + json) \<Rightarrow> string \<Rightarrow> exn + user_details" where
  "token_details loads token =
     (let token_parts = split_chr (CHR ''.'') token in
      if length token_parts \<noteq> 3 then Inr anonymous
      else
        (case py_index token_parts 1 of
           Inl e \<Rightarrow> Inl e
         | Inr payload \<Rightarrow>
             (case b64decode (add_padding payload) of
                Inl e \<Rightarrow> Inl e
              | Inr bytes \<Rightarrow>
                  (case loads bytes of
                     Inl e \<Rightarrow> Inl e
                   | Inr decoded \<Rightarrow>
                       (case py_get decoded ''sub'' (JStr ''anonymous'') of
                          Inl e \<Rightarrow> Inl e
                        | Inr user_id \<Rightarrow>
                            (case py_get decoded ''cognito:username'' (JStr ''anonymous'') of
                               Inl e \<Rightarrow> Inl e
                             | Inr uname \<Rightarrow>
                                 (case py_get decoded ''email'' (JStr ''anonymous'') of
                                    Inl e \<Rightarrow> Inl e
                                  | Inr mail \<Rightarrow>
                                      Inr \<lparr>userId = user_id, username = uname,
                                           email = mail\<rparr>)))))))"

text \<open>The body of the outer \<open>try\<close>; the inner \<open>except\<close> answers anonymous.\<close>

definition extract_user_details_try ::
  "(string \<Rightarrow> exn + json) \<Rightarrow> event \<Rightarrow> exn + user_details" where
  "extract_user_details_try loads ev =
     (case ev_headers ev of
        None \<Rightarrow> Inl (PyError ''AttributeError'' ''NoneType object has no attribute get'')
      | Some hs \<Rightarrow>
          (case auth_header hs of
             None \<Rightarrow> Inr anonymous
           | Some auth \<Rightarrow>
               if auth = [] \<or> \<not> startswith auth ''Bearer '' then Inr anonymous
               else
                 (case py_index (split_chr (CHR '' '') auth) 1 of
                    Inl e \<Rightarrow> Inl e
                  | Inr token \<Rightarrow>
                      (case token_details loads token of
                         Inl e \<Rightarrow> Inr anonymous
                       | Inr d \<Rightarrow> Inr d))))"

text \<open>The outer \<open>except\<close> answers anonymous as well, so the function always returns.\<close>

definition extract_user_details :: "(string \<Rightarrow> exn + json) \<Rightarrow> event \<Rightarrow> user_details" where
  "extract_user_details loads ev =
     (case extract_user_details_try loads ev of Inl e \<Rightarrow> anonymous | Inr d \<Rightarrow> d)"

section \<open>get\_conversation\_messages.py\<close>

text \<open>
  A stored item is a list of attribute bindings. The table is reached through two calls,
  given here by their outcome for a session id: the query on the index
  \<open>sessionId-timestamp-index\<close> and the scan with the filter on \<open>sessionId\<close>.
  \<open>conversation_table\<close> is the environment variable CONVERSATION\_TABLE.
\<close>

type_synonym item = "(string \<times> json) list"

record messages_env =
  conversation_table :: "string option"
  query_items :: "string \<Rightarrow> exn + item list"
  scan_items :: "string \<Rightarrow> exn + item list"

text \<open>\<open>item.get(k, default)\<close>; without a default the result is Python's \<open>None\<close>.\<close>

definition item_get :: "item \<Rightarrow> string \<Rightarrow> json \<Rightarrow> json" where
  "item_get it k d = (case map_of it k of None \<Rightarrow> d | Some v \<Rightarrow> v)"

definition make_response :: "nat \<Rightarrow> json \<Rightarrow> response" where
  "make_response status_code b =
     \<lparr>statusCode = status_code, resp_headers = cors_headers, resp_body = b\<rparr>"

text \<open>The query, with the scan as the fallback when the query returns no item.\<close>

definition fetch_items :: "messages_env \<Rightarrow> string \<Rightarrow> exn + item list" where
  "fetch_items env session_id =
     (case query_items env session_id of
        Inl e \<Rightarrow> Inl e
      | Inr items \<Rightarrow> if items = [] then scan_items env session_id else Inr items)"

definition format_message :: "item \<Rightarrow> json" where
  "format_message it =
     JObj [(''timestamp'', item_get it ''timestamp'' (JStr [])),
           (''userQuery'', item_get it ''userQuery'' (JStr [])),
           (''response'', item_get it ''response'' (JStr [])),
           (''thinkingSteps'', item_get it ''thinkingSteps'' (JArr []))]"

text \<open>
  The loop over the items: an item whose \<open>userId\<close> differs from the caller's is skipped.
  Python's \<open>!=\<close> is equality of values here (user ids are strings).
\<close>

fun collect_messages :: "json \<Rightarrow> item list \<Rightarrow> json list" where
  "collect_messages uid [] = []"
| "collect_messages uid (it # items) =
     (if item_get it ''userId'' JNull \<noteq> uid then collect_messages uid items
      else format_message it # collect_messages uid items)"

definition messages_handler ::
  "(string \<Rightarrow> exn + json) \<Rightarrow> messages_env \<Rightarrow> event \<Rightarrow> response" where
  "messages_handler loads env ev =
     (let user = extract_user_details loads ev;
          path_params = (case ev_pathParameters ev of None \<Rightarrow> Map.empty | Some p \<Rightarrow> p)
      in case path_params ''sessionId'' of
           None \<Rightarrow> make_response 400 (JObj [(''error'', JStr ''Session ID is required'')])
         | Some session_id \<Rightarrow>
             if session_id = [] then
               make_response 400 (JObj [(''error'', JStr ''Session ID is required'')])
             else if conversation_table env = None \<or> conversation_table env = Some [] then
               make_response 500 (JObj [(''error'', JStr ''Conversation table not configured'')])
             else
               (case fetch_items env session_id of
                  Inl e \<Rightarrow>
                    make_response 500 (JObj [(''error'', JStr (''Query failed: '' @ str_of e))])
                | Inr items \<Rightarrow>
                    make_response 200
                      (JObj [(''messages'', JArr (collect_messages (userId user) items)),
                             (''sessionId'', JStr session_id)])))"

section \<open>invoke\_agent.py\<close>

text \<open>
  One event of the completion stream. \<open>chunk\<close> is \<open>None\<close> when the event has no
  \<open>chunk\<close> key, otherwise the decoded text or the exception that reading it raises
  (\<open>event_data['chunk']['bytes'].decode('utf8')\<close>). \<open>rationale\<close> is \<open>None\<close> when the event
  carries no \<open>trace.trace.orchestrationTrace.rationale\<close>, otherwise its text or the
  exception of the lookup \<open>orch['rationale']['text']\<close>.
\<close>

record event_data =
  chunk :: "(exn + string) option"
  rationale :: "(exn + string) option"

text \<open>
  What \<open>client.invoke_agent\<close> returns: the events the stream yields and, when the
  iterator raises after them, the exception.
\<close>

record completion =
  events :: "event_data list"
  stream_error :: "exn option"

text \<open>
  The environment of one request: the outcome of the \<open>n\<close>-th call of \<open>invoke_agent\<close>
  (counted from 0), the variable CONVERSATION\_TABLE, whether \<open>boto3.resource\<close> raises,
  the outcome of \<open>put_item\<close> for an item, and the values of \<open>uuid.uuid4()\<close> and of the
  clock. The sleeps between attempts have no effect on the result and are left out.
\<close>

record invoke_env =
  invoke_agent_result :: "nat \<Rightarrow> exn + completion"
  inv_conversation_table :: "string option"
  dynamodb_resource_error :: "exn option"
  put_item_error :: "item \<Rightarrow> exn option"
  new_session_id :: string
  new_message_id :: string
  now_timestamp :: string

text \<open>The table: the items it holds, and every \<open>put_item\<close> call made on it.\<close>

record dynamo =
  table :: "item list"
  put_calls :: "item list"

definition max_retries :: nat where
  "max_retries = 5"

text \<open>
  The \<open>for\<close> loop over the stream. \<open>full_response\<close> and \<open>thinking_steps\<close> are the
  variables of the handler; the loop returns them as they stand when it ends or raises.
\<close>

fun process_events ::
  "event_data list \<Rightarrow> string \<Rightarrow> string list \<Rightarrow> exn option \<times> string \<times> string list" where
  "process_events [] full_response thinking_steps = (None, full_response, thinking_steps)"
| "process_events (ed # eds) full_response thinking_steps =
     (case chunk ed of
        Some (Inl e) \<Rightarrow> (Some e, full_response, thinking_steps)
      | c \<Rightarrow>
          (let full_response' =
                 (case c of Some (Inr chunk_data) \<Rightarrow> full_response @ chunk_data
                  | _ \<Rightarrow> full_response)
           in case rationale ed of
                Some (Inl e) \<Rightarrow> (Some e, full_response', thinking_steps)
              | Some (Inr step_text) \<Rightarrow>
                  process_events eds full_response' (thinking_steps @ [step_text])
              | None \<Rightarrow> process_events eds full_response' thinking_steps))"

text \<open>The \<open>try\<close> block of one attempt, up to the call of \<open>save_conversation\<close>.\<close>

definition run_attempt ::
  "invoke_env \<Rightarrow> nat \<Rightarrow> string \<Rightarrow> string list \<Rightarrow> exn option \<times> string \<times> string list" where
  "run_attempt env attempt full_response thinking_steps =
     (case invoke_agent_result env attempt of
        Inl e \<Rightarrow> (Some e, full_response, thinking_steps)
      | Inr completion \<Rightarrow>
          (case process_events (events completion) full_response thinking_steps of
             (Some e, full', steps') \<Rightarrow> (Some e, full', steps')
           | (None, full', steps') \<Rightarrow> (stream_error completion, full', steps')))"

definition conversation_item ::
  "invoke_env \<Rightarrow> user_details \<Rightarrow> json \<Rightarrow> json \<Rightarrow> string \<Rightarrow> string list \<Rightarrow> item" where
  "conversation_item env user session_id user_query resp thinking_steps =
     [(''userId'', userId user),
      (''timestamp'', JStr (now_timestamp env)),
      (''messageId'', JStr (new_message_id env)),
      (''sessionId'', session_id),
      (''username'', username user),
      (''email'', email user),
      (''userQuery'', user_query),
      (''response'', JStr resp),
      (''thinkingSteps'', JArr (map JStr thinking_steps))]"

text \<open>
  \<open>save_conversation\<close> never raises: its \<open>except\<close> logs the error. It returns without
  a put when CONVERSATION\_TABLE is not set.
\<close>

definition save_conversation ::
  "invoke_env \<Rightarrow> user_details \<Rightarrow> json \<Rightarrow> json \<Rightarrow> string \<Rightarrow> string list \<Rightarrow> dynamo \<Rightarrow> dynamo" where
  "save_conversation env user session_id user_query resp thinking_steps db =
     (case dynamodb_resource_error env of
        Some e \<Rightarrow> db
      | None \<Rightarrow>
          (if inv_conversation_table env = None \<or> inv_conversation_table env = Some [] then db
           else
             (let it = conversation_item env user session_id user_query resp thinking_steps
              in case put_item_error env it of
                   Some e \<Rightarrow> db\<lparr>put_calls := put_calls db @ [it]\<rparr>
                 | None \<Rightarrow> db\<lparr>table := table db @ [it], put_calls := put_calls db @ [it]\<rparr>)))"

definition success_response :: "string \<Rightarrow> string list \<Rightarrow> json \<Rightarrow> response" where
  "success_response full_response thinking_steps session_id =
     \<lparr>statusCode = 200, resp_headers = cors_headers,
      resp_body = JObj [(''response'', JStr full_response),
                        (''thinkingSteps'', JArr (map JStr thinking_steps)),
                        (''sessionId'', session_id)]\<rparr>"

definition failure_response :: "exn \<Rightarrow> response" where
  "failure_response e =
     \<lparr>statusCode = 500, resp_headers = cors_headers,
      resp_body = JObj [(''error'', JStr (''Failed after 5 attempts: '' @ str_of e))]\<rparr>"

text \<open>
  The retry loop \<open>while attempt < max_retries\<close>, from the current value of \<open>attempt\<close>
  and of the two accumulators, which are set before the loop and not inside it.
\<close>

function retry_loop ::
  "invoke_env \<Rightarrow> user_details \<Rightarrow> json \<Rightarrow> json \<Rightarrow> nat \<Rightarrow> string \<Rightarrow> string list \<Rightarrow> dynamo
     \<Rightarrow> response \<times> dynamo" where
  "retry_loop env user session_id input_text attempt full_response thinking_steps db =
     (if attempt < max_retries then
        (case run_attempt env attempt full_response thinking_steps of
           (None, full', steps') \<Rightarrow>
             (success_response full' steps' session_id,
              save_conversation env user session_id input_text full' steps' db)
         | (Some e, full', steps') \<Rightarrow>
             if max_retries \<le> attempt + 1 then (failure_response e, db)
             else retry_loop env user session_id input_text (attempt + 1) full' steps' db)
      else (success_response full_response thinking_steps session_id, db))"
  by pat_completeness auto
termination
  by (relation "measure (\<lambda>(env, user, session_id, input_text, attempt, rest). max_retries - attempt)")
     auto

declare retry_loop.simps [simp del]

text \<open>
  What attempt \<open>n\<close> does on its own: the exception it raises, if any, and the text and
  the rationale steps it reads from the stream before that.
\<close>

definition attempt_error :: "invoke_env \<Rightarrow> nat \<Rightarrow> exn option" where
  "attempt_error env n = fst (run_attempt env n [] [])"

definition attempt_text :: "invoke_env \<Rightarrow> nat \<Rightarrow> string" where
  "attempt_text env n = fst (snd (run_attempt env n [] []))"

definition attempt_steps :: "invoke_env \<Rightarrow> nat \<Rightarrow> string list" where
  "attempt_steps env n = snd (snd (run_attempt env n [] []))"

text \<open>
  The handler. A body that does not parse, or is not an object, raises out of the
  handler (\<open>Inl\<close>). The result carries the table as the request leaves it.
\<close>

definition invoke_handler ::
  "(string \<Rightarrow> exn + json) \<Rightarrow> invoke_env \<Rightarrow> event \<Rightarrow> dynamo \<Rightarrow> (exn + response) \<times> dynamo" where
  "invoke_handler loads env ev db =
     (case (case ev_body ev of None \<Rightarrow> Inr (JObj []) | Some b \<Rightarrow> b) of
        Inl e \<Rightarrow> (Inl e, db)
      | Inr body \<Rightarrow>
          (case py_get body ''message'' JNull of
             Inl e \<Rightarrow> (Inl e, db)
           | Inr input_text \<Rightarrow>
               (case py_get body ''sessionId'' (JStr (new_session_id env)) of
                  Inl e \<Rightarrow> (Inl e, db)
                | Inr session_id \<Rightarrow>
                    (let user = extract_user_details loads ev in
                     if \<not> truthy input_text then
                       (Inr \<lparr>statusCode = 400, resp_headers = cors_headers,
                             resp_body = JObj [(''error'', JStr ''Message is required'')]\<rparr>, db)
                     else
                       (case retry_loop env user session_id input_text 0 [] [] db of
                          (r, db') \<Rightarrow> (Inr r, db'))))))"

section \<open>process\_upload.py\<close>

text \<open>\<open>d[k]\<close>: KeyError for a missing key, TypeError when \<open>d\<close> is not a dict.\<close>

fun py_item :: "json \<Rightarrow> string \<Rightarrow> exn + json" where
  "py_item (JObj kvs) k =
     (case map_of kvs k of None \<Rightarrow> Inl (PyError ''KeyError'' k) | Some v \<Rightarrow> Inr v)"
| "py_item j k = Inl (PyError ''TypeError'' ''object is not subscriptable'')"

text \<open>
  \<open>xs[0]\<close> on the value of \<open>dataSourceSummaries\<close>: the first element of a non-empty
  list. On any other value the lookup \<open>xs[0]['dataSourceId']\<close> raises.
\<close>

fun py_first :: "json \<Rightarrow> exn + json" where
  "py_first (JArr (x # xs)) = Inr x"
| "py_first j = Inl (PyError ''LookupError'' ''no first element'')"

text \<open>
  A record of an S3 notification: the bucket name and the object key, or a record that
  lacks one of them (the lookup raises KeyError inside the \<open>try\<close>). The event is
  \<open>None\<close> when it has no key \<open>Records\<close>, otherwise the list of its records.
\<close>

datatype s3_record = S3Object string string | MalformedRecord

text \<open>
  The environment of the ingestion trigger: what \<open>json.loads\<close> makes of the variable
  KNOWLEDGE\_BASES (the published mapping), the answer of \<open>list_data_sources\<close> for a
  knowledge base id, and the answer of \<open>start_ingestion_job\<close> for a knowledge base id
  and a data source id, which may depend on the number of \<open>start_ingestion_job\<close> calls
  made before it (the service refuses a job for a data source that is still ingesting).
\<close>

record trigger_env =
  knowledge_bases_var :: "exn + json"
  list_data_sources_result :: "json \<Rightarrow> exn + json"
  start_ingestion_job_result :: "nat \<Rightarrow> json \<Rightarrow> json \<Rightarrow> exn + json"

text \<open>
  The ingestion service as the handler acts on it: every \<open>start_ingestion_job\<close> call
  made, and the ingestion jobs started, each as the pair of knowledge base id and data
  source id. A call that returns has started a job; a call that raises has started none.
\<close>

record ingestion =
  start_calls :: "(json \<times> json) list"
  started_jobs :: "(json \<times> json) list"

text \<open>\<open>folder = path_parts[0].lower()\<close>, and the special case of the IT helpdesk.\<close>

definition key_folder :: "string \<Rightarrow> string" where
  "key_folder key = lower (hd (split_chr (CHR ''/'') key))"

definition helpdesk_alias :: "string \<Rightarrow> string" where
  "helpdesk_alias folder = (if folder = ''it_helpdesk'' then ''helpdesk'' else folder)"

text \<open>
  The call \<open>bedrock_agent.start_ingestion_job(knowledgeBaseId=kb_id, dataSourceId=ds_id)\<close>
  inside the \<open>try\<close>: when it raises, the \<open>except\<close> logs the error and the loop
  continues. When it returns, the handler only logs the job id of the answer, and an
  exception of that lookup is caught by the same \<open>except\<close>.
\<close>

definition call_start_ingestion_job :: "trigger_env \<Rightarrow> json \<Rightarrow> json \<Rightarrow> ingestion \<Rightarrow> ingestion" where
  "call_start_ingestion_job env kb_id ds_id st =
     (case start_ingestion_job_result env (length (start_calls st)) kb_id ds_id of
        Inl e \<Rightarrow> st\<lparr>start_calls := start_calls st @ [(kb_id, ds_id)]\<rparr>
      | Inr ingestion_job \<Rightarrow>
          st\<lparr>start_calls := start_calls st @ [(kb_id, ds_id)],
             started_jobs := started_jobs st @ [(kb_id, ds_id)]\<rparr>)"

text \<open>
  The body of the loop for one record. Every exception inside the \<open>try\<close> is logged and
  the loop continues with the next record.
\<close>

definition process_record :: "trigger_env \<Rightarrow> s3_record \<Rightarrow> ingestion \<Rightarrow> ingestion" where
  "process_record env r st =
     (case r of
        MalformedRecord \<Rightarrow> st
      | S3Object bucket key \<Rightarrow>
          if length (split_chr (CHR ''/'') key) < 2 then st
          else
            (case knowledge_bases_var env of
               Inl e \<Rightarrow> st
             | Inr knowledge_bases \<Rightarrow>
                 (case py_get knowledge_bases (helpdesk_alias (key_folder key)) JNull of
                    Inl e \<Rightarrow> st
                  | Inr kb_id \<Rightarrow>
                      if \<not> truthy kb_id then st
                      else
                        (case list_data_sources_result env kb_id of
                           Inl e \<Rightarrow> st
                         | Inr data_sources \<Rightarrow>
                             (case py_get data_sources ''dataSourceSummaries'' JNull of
                                Inl e \<Rightarrow> st
                              | Inr summaries \<Rightarrow>
                                  if \<not> truthy summaries then st
                                  else
                                    (case py_first summaries of
                                       Inl e \<Rightarrow> st
                                     | Inr s \<Rightarrow>
                                         (case py_item s ''dataSourceId'' of
                                            Inl e \<Rightarrow> st
                                          | Inr ds_id \<Rightarrow>
                                              call_start_ingestion_job env kb_id ds_id st)))))))"

text \<open>The loop \<open>for record in event['Records']\<close>.\<close>

fun process_records :: "trigger_env \<Rightarrow> s3_record list \<Rightarrow> ingestion \<Rightarrow> ingestion" where
  "process_records env [] st = st"
| "process_records env (r # rs) st = process_records env rs (process_record env r st)"

text \<open>The handler: \<open>event['Records']\<close> raises KeyError when the event has no such key.\<close>

definition trigger_handler ::
  "trigger_env \<Rightarrow> s3_record list option \<Rightarrow> ingestion \<Rightarrow> (exn + response) \<times> ingestion" where
  "trigger_handler env event_records st =
     (case event_records of
        None \<Rightarrow> (Inl (PyError ''KeyError'' ''Records''), st)
      | Some records \<Rightarrow>
          (Inr \<lparr>statusCode = 200, resp_headers = [], resp_body = JStr ''Processing complete''\<rparr>,
           process_records env records st))"

section \<open>upload\_files.py\<close>











record bucket =
  objects :: "(string \<times> string \<times> json) list"
  put_object_calls :: "(string \<times> string \<times> json) list"






section \<open>create\_knowledge\_bases.py\<close>

text \<open>
  A knowledge base configuration, as \<open>create_oss.handler\<close> publishes it and this handler
  parses it (an object with the four keys).
\<close>

record kb_config =
  kb_name :: string
  kb_description :: string
  kb_folder :: string
  kb_index :: string

text \<open>The calls to the Bedrock agent service that \<open>start_ingestion_job\<close> makes.\<close>

datatype kb_call =
    GetKnowledgeBase json
  | StartIngestionJob json json
  | GetIngestionJob json json json

text \<open>
  The services, by their answers. An answer depends on the arguments of the call and on
  how many times the loop around it has run, not on what was done for another domain:
  \<^item> \<open>credentials_error\<close>: what building the request signer raises, if anything;
  \<^item> \<open>indices_create_error\<close>: what \<open>client.indices.create\<close> raises for an index at an attempt;
  \<^item> \<open>create_knowledge_base_result\<close>: the answer for a configuration at an attempt;
  \<^item> \<open>create_data_source_result\<close>: the answer for a knowledge base id, a name and a folder;
  \<^item> \<open>get_knowledge_base_status\<close>: \<open>kb_response["knowledgeBase"]["status"]\<close> at a check,
    or what the call or the lookup raises;
  \<^item> \<open>start_ingestion_result\<close>, \<open>get_ingestion_job_result\<close>: the answers of the two job
    calls.
  The sleeps are left out.
\<close>

record kb_env =
  credentials_error :: "exn option"
  indices_create_error :: "string \<Rightarrow> nat \<Rightarrow> exn option"
  create_knowledge_base_result :: "kb_config \<Rightarrow> nat \<Rightarrow> exn + json"
  create_data_source_result :: "json \<Rightarrow> string \<Rightarrow> string \<Rightarrow> exn + json"
  get_knowledge_base_status :: "json \<Rightarrow> nat \<Rightarrow> exn + string"
  start_ingestion_result :: "json \<Rightarrow> json \<Rightarrow> exn + json"
  get_ingestion_job_result :: "json \<Rightarrow> json \<Rightarrow> json \<Rightarrow> nat \<Rightarrow> exn + json"

text \<open>
  \<open>create_vector_index\<close>: the loop \<open>for attempt in range(max_retries)\<close> returns True
  on success, on an index that already exists, and after the last attempt as well.
\<close>

fun index_attempts :: "kb_env \<Rightarrow> string \<Rightarrow> nat \<Rightarrow> nat \<Rightarrow> bool" where
  "index_attempts env index_name attempt 0 = True"
| "index_attempts env index_name attempt (Suc n) =
     (case indices_create_error env index_name attempt of
        None \<Rightarrow> True
      | Some (RequestError m) \<Rightarrow>
          if contains (str_of (RequestError m)) ''resource_already_exists_exception'' then True
          else index_attempts env index_name (attempt + 1) n
      | Some e \<Rightarrow> index_attempts env index_name (attempt + 1) n)"

definition create_vector_index :: "kb_env \<Rightarrow> string \<Rightarrow> string \<Rightarrow> exn + bool" where
  "create_vector_index env host index_name =
     (case credentials_error env of
        Some e \<Rightarrow> Inl e
      | None \<Rightarrow> Inr (index_attempts env index_name 0 3))"

text \<open>
  \<open>create_knowledge_base\<close>: up to 5 attempts; an attempt that raises (the call, or the
  lookup of \<open>knowledgeBase\<close> in its answer) is logged; after the last one the function
  raises.
\<close>

fun create_kb_attempts :: "kb_env \<Rightarrow> kb_config \<Rightarrow> nat \<Rightarrow> nat \<Rightarrow> json option" where
  "create_kb_attempts env cfg attempt 0 = None"
| "create_kb_attempts env cfg attempt (Suc n) =
     (case create_knowledge_base_result env cfg attempt of
        Inl e \<Rightarrow> create_kb_attempts env cfg (attempt + 1) n
      | Inr create_kb_response \<Rightarrow>
          (case py_item create_kb_response ''knowledgeBase'' of
             Inl e \<Rightarrow> create_kb_attempts env cfg (attempt + 1) n
           | Inr kb \<Rightarrow> Some kb))"

definition create_knowledge_base :: "kb_env \<Rightarrow> kb_config \<Rightarrow> exn + json" where
  "create_knowledge_base env cfg =
     (case create_kb_attempts env cfg 0 5 of
        Some kb \<Rightarrow> Inr kb
      | None \<Rightarrow>
          Inl (PyError ''Exception''
                 (''Failed to create knowledge base '' @ kb_name cfg @ '' after 5 attempts'')))"

text \<open>
  \<open>c.isalnum()\<close> on the code points U+0000 to U+00FF (the word characters without the
  underscore), and the name of the data source made valid.
\<close>

definition is_alnum :: "char \<Rightarrow> bool" where
  "is_alnum c =
     (let n = (of_char c :: nat) in
      (48 \<le> n \<and> n \<le> 57) \<or> (65 \<le> n \<and> n \<le> 90) \<or> (97 \<le> n \<and> n \<le> 122) \<or>
      n = 170 \<or> n = 178 \<or> n = 179 \<or> n = 181 \<or> n = 185 \<or> n = 186 \<or>
      (188 \<le> n \<and> n \<le> 190) \<or> (192 \<le> n \<and> n \<le> 214) \<or> (216 \<le> n \<and> n \<le> 246) \<or>
      (248 \<le> n \<and> n \<le> 255))"

definition valid_ds_name :: "string \<Rightarrow> string" where
  "valid_ds_name name =
     (let valid_name =
            map (\<lambda>c. if is_alnum c \<or> c = CHR ''_'' \<or> c = CHR ''-'' then c else CHR ''_'') name
      in if valid_name \<noteq> [] \<and> \<not> is_alnum (hd valid_name) then ''ds'' @ valid_name
         else valid_name)"

definition create_data_source :: "kb_env \<Rightarrow> json \<Rightarrow> string \<Rightarrow> string \<Rightarrow> exn + json" where
  "create_data_source env kb_id name folder =
     (case create_data_source_result env kb_id (valid_ds_name name) folder of
        Inl e \<Rightarrow> Inl e
      | Inr create_ds_response \<Rightarrow> py_item create_ds_response ''dataSource'')"

text \<open>
  The body of the inner \<open>try\<close> of the wait for the knowledge base: \<open>Inr True\<close> is the
  \<open>break\<close> on ACTIVE, \<open>Inr False\<close> the end of the body, \<open>Inl\<close> an exception, among them
  the one the body raises itself on FAILED, DELETING and DELETED.
\<close>

definition kb_check :: "kb_env \<Rightarrow> json \<Rightarrow> nat \<Rightarrow> exn + bool" where
  "kb_check env kb_id i =
     (case get_knowledge_base_status env kb_id i of
        Inl e \<Rightarrow> Inl e
      | Inr kb_status \<Rightarrow>
          if kb_status = ''ACTIVE'' then Inr True
          else if kb_status \<in> set [''FAILED'', ''DELETING'', ''DELETED''] then
            Inl (PyError ''Exception'' (''Knowledge base in invalid state: '' @ kb_status))
          else Inr False)"

text \<open>
  The loop \<open>for i in range(max_kb_checks)\<close>, from check \<open>i\<close> with \<open>n\<close> checks left. The
  \<open>except Exception\<close> inside the loop catches every exception of the body, logs it,
  sleeps, and the loop goes on with the next check.
\<close>

fun kb_wait_loop :: "kb_env \<Rightarrow> json \<Rightarrow> nat \<Rightarrow> nat \<Rightarrow> kb_call list" where
  "kb_wait_loop env kb_id i 0 = []"
| "kb_wait_loop env kb_id i (Suc n) =
     GetKnowledgeBase kb_id #
     (case kb_check env kb_id i of
        Inr True \<Rightarrow> []
      | Inr False \<Rightarrow> kb_wait_loop env kb_id (i + 1) n
      | Inl e \<Rightarrow> kb_wait_loop env kb_id (i + 1) n)"

text \<open>
  The loop \<open>while check_count < max_checks and job['status'] != 'COMPLETE'\<close>, with \<open>n\<close>
  checks left; it returns the job as last read, or the exception raised.
\<close>

fun monitor_job ::
  "kb_env \<Rightarrow> json \<Rightarrow> json \<Rightarrow> json \<Rightarrow> nat \<Rightarrow> nat \<Rightarrow> (exn + json) \<times> kb_call list" where
  "monitor_job env kb_id ds_id job check_count 0 = (Inr job, [])"
| "monitor_job env kb_id ds_id job check_count (Suc n) =
     (case py_item job ''status'' of
        Inl e \<Rightarrow> (Inl e, [])
      | Inr st \<Rightarrow>
          if st = JStr ''COMPLETE'' then (Inr job, [])
          else
            (case py_item job ''ingestionJobId'' of
               Inl e \<Rightarrow> (Inl e, [])
             | Inr job_id \<Rightarrow>
                 (case get_ingestion_job_result env kb_id ds_id job_id check_count of
                    Inl e \<Rightarrow> (Inl e, [GetIngestionJob kb_id ds_id job_id])
                  | Inr get_job_response \<Rightarrow>
                      (case py_item get_job_response ''ingestionJob'' of
                         Inl e \<Rightarrow> (Inl e, [GetIngestionJob kb_id ds_id job_id])
                       | Inr job' \<Rightarrow>
                           (case py_item job' ''status'' of
                              Inl e \<Rightarrow> (Inl e, [GetIngestionJob kb_id ds_id job_id])
                            | Inr st' \<Rightarrow>
                                if st' \<in> set [JStr ''COMPLETE'', JStr ''FAILED'', JStr ''STOPPED'']
                                then (Inr job', [GetIngestionJob kb_id ds_id job_id])
                                else
                                  (case monitor_job env kb_id ds_id job' (check_count + 1) n of
                                     (r, calls) \<Rightarrow>
                                       (r, GetIngestionJob kb_id ds_id job_id # calls)))))))"

definition error_job :: "exn \<Rightarrow> json" where
  "error_job e =
     JObj [(''ingestionJobId'', JStr ''error''), (''status'', JStr ''ERROR''),
           (''error'', JStr (str_of e))]"

text \<open>
  \<open>start_ingestion_job\<close>: the job it returns (the error dict when the outer \<open>try\<close>
  catches an exception) and the calls it makes, in order.
\<close>

definition start_ingestion_job :: "kb_env \<Rightarrow> json \<Rightarrow> json \<Rightarrow> json \<times> kb_call list" where
  "start_ingestion_job env kb_id ds_id =
     (let waited = kb_wait_loop env kb_id 0 10;
          started = waited @ [StartIngestionJob kb_id ds_id]
      in case start_ingestion_result env kb_id ds_id of
           Inl e \<Rightarrow> (error_job e, started)
         | Inr start_job_response \<Rightarrow>
             (case py_item start_job_response ''ingestionJob'' of
                Inl e \<Rightarrow> (error_job e, started)
              | Inr job \<Rightarrow>
                  (case py_item job ''ingestionJobId'' of
                     Inl e \<Rightarrow> (error_job e, started)
                   | Inr job_id \<Rightarrow>
                       (case monitor_job env kb_id ds_id job 0 5 of
                          (Inl e, calls) \<Rightarrow> (error_job e, started @ calls)
                        | (Inr job', calls) \<Rightarrow> (job', started @ calls)))))"

text \<open>An entry of \<open>created_kbs\<close>.\<close>

record created_kb =
  ckb_name :: string
  ckb_knowledgeBaseId :: json
  ckb_dataSourceId :: json
  ckb_ingestionJobId :: json
  ckb_collectionArn :: string
  ckb_indexName :: string
  ckb_folder :: string

text \<open>\<open>s.replace('/', '_')\<close>.\<close>

definition replace_slashes :: "string \<Rightarrow> string" where
  "replace_slashes s = map (\<lambda>c. if c = CHR ''/'' then CHR ''_'' else c) s"

text \<open>The body of the \<open>try\<close> for one configuration: the four steps.\<close>

definition process_kb_config ::
  "kb_env \<Rightarrow> string \<Rightarrow> string \<Rightarrow> string \<Rightarrow> kb_config \<Rightarrow> exn + created_kb" where
  "process_kb_config env uuid_suffix collection_arn collection_host cfg =
     (case create_vector_index env collection_host (kb_index cfg) of
        Inl e \<Rightarrow> Inl e
      | Inr created \<Rightarrow>
          (case create_knowledge_base env cfg of
             Inl e \<Rightarrow> Inl e
           | Inr kb \<Rightarrow>
               (case py_item kb ''knowledgeBaseId'' of
                  Inl e \<Rightarrow> Inl e
                | Inr kb_id \<Rightarrow>
                    (case create_data_source env kb_id
                            (''ds_'' @ uuid_suffix @ ''_'' @ replace_slashes (kb_folder cfg))
                            (kb_folder cfg) of
                       Inl e \<Rightarrow> Inl e
                     | Inr ds \<Rightarrow>
                         (case py_item ds ''dataSourceId'' of
                            Inl e \<Rightarrow> Inl e
                          | Inr ds_id \<Rightarrow>
                              (let job = fst (start_ingestion_job env kb_id ds_id)
                               in case py_get job ''ingestionJobId'' (JStr ''error'') of
                                    Inl e \<Rightarrow> Inl e
                                  | Inr job_id \<Rightarrow>
                                      Inr \<lparr>ckb_name = kb_name cfg,
                                           ckb_knowledgeBaseId = kb_id,
                                           ckb_dataSourceId = ds_id,
                                           ckb_ingestionJobId = job_id,
                                           ckb_collectionArn = collection_arn,
                                           ckb_indexName = kb_index cfg,
                                           ckb_folder = kb_folder cfg\<rparr>))))))"

text \<open>
  The loop over the configurations: a configuration whose \<open>try\<close> raises is logged and
  the loop continues with the next one.
\<close>

fun create_all ::
  "kb_env \<Rightarrow> string \<Rightarrow> string \<Rightarrow> string \<Rightarrow> kb_config list \<Rightarrow> created_kb list
     \<Rightarrow> created_kb list" where
  "create_all env uuid_suffix collection_arn collection_host [] created_kbs = created_kbs"
| "create_all env uuid_suffix collection_arn collection_host (cfg # cfgs) created_kbs =
     (case process_kb_config env uuid_suffix collection_arn collection_host cfg of
        Inl e \<Rightarrow> create_all env uuid_suffix collection_arn collection_host cfgs created_kbs
      | Inr entry \<Rightarrow>
          create_all env uuid_suffix collection_arn collection_host cfgs (created_kbs @ [entry]))"

text \<open>The key of a folder in the mapping: \<open>folder.split('/')[-1]\<close>, with the helpdesk renamed.\<close>

definition kb_type :: "string \<Rightarrow> string" where
  "kb_type folder =
     (let t = last (split_chr (CHR ''/'') folder)
      in if t = ''it_help_desk'' then ''helpdesk'' else t)"

fun build_mapping :: "created_kb list \<Rightarrow> (string \<rightharpoonup> json) \<Rightarrow> (string \<rightharpoonup> json)" where
  "build_mapping [] m = m"
| "build_mapping (kb # kbs) m =
     build_mapping kbs (m(kb_type (ckb_folder kb) \<mapsto> ckb_knowledgeBaseId kb))"

text \<open>
  The result of the handler for a Create or Update request: FAILED with a reason, or the
  data with the entries created and the mapping \<open>KNOWLEDGE_BASES\<close>. A missing property is
  the empty string (both are false for \<open>not\<close>).
\<close>

datatype kb_result = KbFailed string | KbSuccess "created_kb list" "string \<rightharpoonup> json"

definition kb_handler ::
  "kb_env \<Rightarrow> string \<Rightarrow> string \<Rightarrow> string \<Rightarrow> kb_config list \<Rightarrow> kb_result" where
  "kb_handler env uuid_suffix collection_arn collection_host kb_configs =
     (if collection_arn = [] \<or> collection_host = [] \<or> kb_configs = [] then
        KbFailed ''Missing required parameters''
      else
        (let created_kbs = create_all env uuid_suffix collection_arn collection_host kb_configs []
         in KbSuccess created_kbs (build_mapping created_kbs Map.empty)))"

text \<open>The configurations that \<open>create_oss.handler\<close> publishes for a suffix.\<close>

definition knowledge_bases :: "string \<Rightarrow> kb_config list" where
  "knowledge_bases uuid_suffix =
     [\<lparr>kb_name = ''eva_hr_kb_'' @ uuid_suffix,
       kb_description = ''HR Knowledge Base for storing and managing HR-related documents, providing easy access to policies, procedures, and employee resources using Amazon Bedrock for enhanced AI-powered search.'',
       kb_folder = ''hr'',
       kb_index = ''eva-hr-index-'' @ uuid_suffix\<rparr>,
      \<lparr>kb_name = ''eva_payroll_kb_'' @ uuid_suffix,
       kb_description = ''Payroll Knowledge Base for storing and managing payroll-related documents, enabling AI-powered search and quick access to salary, tax, and benefits information using Amazon Bedrock.'',
       kb_folder = ''payroll'',
       kb_index = ''eva-payroll-index-'' @ uuid_suffix\<rparr>,
      \<lparr>kb_name = ''eva_benefits_kb_'' @ uuid_suffix,
       kb_description = ''Benefits Knowledge Base for storing and managing employee benefits-related documents, health plans, retirement, and other benefits details with AI-powered search via Amazon Bedrock.'',
       kb_folder = ''benefits'',
       kb_index = ''eva-benefits-index-'' @ uuid_suffix\<rparr>,
      \<lparr>kb_name = ''eva_it_helpdesk_kb_'' @ uuid_suffix,
       kb_description = ''IT Helpdesk Knowledge Base for storing and managing technical support documents, troubleshooting guides, and FAQs, enabling efficient AI-powered assistance through Amazon Bedrock.'',
       kb_folder = ''it_help_desk'',
       kb_index = ''eva-it-helpdesk-index-'' @ uuid_suffix\<rparr>,
      \<lparr>kb_name = ''eva_training_kb_'' @ uuid_suffix,
       kb_description = ''Training Knowledge Base for storing and managing employee training materials, courses, and resources, providing AI-powered learning assistance via Amazon Bedrock.'',
       kb_folder = ''training'',
       kb_index = ''eva-training-index-'' @ uuid_suffix\<rparr>]"

section \<open>create\_agents.py: the supervisor\<close>

text \<open>
  The calls of the Bedrock agent client that the supervisor composition makes, and the
  answers of the service. \<open>Raises\<close> is an exception of the call; the other answers carry
  the fields the code reads: the pairs of name and id of \<open>agentSummaries\<close> and of
  \<open>agentAliasSummaries\<close>, the id of a created agent or alias, an \<open>agentStatus\<close>, the
  \<open>agentAliasArn\<close>, and \<open>Done\<close> for an answer the code does not read.
\<close>

datatype agent_call =
    ListAgents
  | DeleteAgent string
  | GetAgent string
  | CreateAgent string "string option"
  | ListAgentAliases string
  | GetAgentAlias string string
  | AssociateAgentCollaborator string string string string
  | PrepareAgent string
  | CreateAgentAlias string string

datatype agent_response =
    Raises exn
  | AgentSummaries "(string \<times> string) list"
  | AgentCreated string
  | AgentStatus string
  | AliasSummaries "(string \<times> string) list"
  | AliasArn string
  | AliasCreated string
  | Done

text \<open>
  The service is a script: the finite list of the answers it gives, call after call,
  whatever the call is. After the last answer of the script the service is unavailable
  and every call raises. \<open>call_log\<close> records each call with its answer. Every run that ends
  and every finite part of a run that does not is the run on some script. The sleeps are
  left out.
\<close>

record agent_world =
  script :: "agent_response list"
  call_log :: "(agent_call \<times> agent_response) list"

definition unavailable :: exn where
  "unavailable = ClientError ''ServiceUnavailableException'' ''(any)'' ''end of the script''"

definition api :: "agent_call \<Rightarrow> agent_world \<Rightarrow> agent_response \<times> agent_world" where
  "api c w =
     (case script w of
        [] \<Rightarrow> (Raises unavailable, w\<lparr>call_log := call_log w @ [(c, Raises unavailable)]\<rparr>)
      | r # rs \<Rightarrow> (r, \<lparr>script = rs, call_log = call_log w @ [(c, r)]\<rparr>))"

definition key_error :: "string \<Rightarrow> exn" where
  "key_error k = PyError ''KeyError'' k"

text \<open>The configuration of an agent, as far as the supervisor composition reads it.\<close>

record agent_config =
  agent_name :: string
  foundation_model :: string
  description :: string
  instruction :: string

text \<open>\<open>agentId\<close> of the first summary with the given name, as the two lookups by name do.\<close>

fun find_by_name :: "string \<Rightarrow> (string \<times> string) list \<Rightarrow> string option" where
  "find_by_name n [] = None"
| "find_by_name n ((name, ident) # xs) = (if name = n then Some ident else find_by_name n xs)"

text \<open>\<open>list_agents\<close> and \<open>.get('agentSummaries', [])\<close>.\<close>

definition list_agents :: "agent_world \<Rightarrow> (exn + (string \<times> string) list) \<times> agent_world" where
  "list_agents w =
     (case api ListAgents w of
        (Raises e, w') \<Rightarrow> (Inl e, w')
      | (AgentSummaries xs, w') \<Rightarrow> (Inr xs, w')
      | (_, w') \<Rightarrow> (Inr [], w'))"

text \<open>
  The wait for the deletion: \<open>while True\<close>, left by the \<open>break\<close> on
  ResourceNotFoundException; another exception of \<open>get_agent\<close> leaves the function.
\<close>

function wait_deleted :: "string \<Rightarrow> agent_world \<Rightarrow> (exn + unit) \<times> agent_world" where
  "wait_deleted agent_id w =
     (case api (GetAgent agent_id) w of
        (Raises (ClientError code op m), w') \<Rightarrow>
          if code = ''ResourceNotFoundException'' then (Inr (), w')
          else (Inl (ClientError code op m), w')
      | (Raises e, w') \<Rightarrow> (Inl e, w')
      | (_, w') \<Rightarrow> wait_deleted agent_id w')"
  by pat_completeness auto
termination
  by (relation "measure (\<lambda>(agent_id, w). length (script w))")
     (auto simp: api_def unavailable_def split: list.splits)

declare wait_deleted.simps [simp del]

definition check_and_delete_existing_agent ::
  "string \<Rightarrow> agent_world \<Rightarrow> (exn + string option) \<times> agent_world" where
  "check_and_delete_existing_agent name w =
     (case list_agents w of
        (Inl e, w1) \<Rightarrow> (Inl e, w1)
      | (Inr summaries, w1) \<Rightarrow>
          (case find_by_name name summaries of
             None \<Rightarrow> (Inr None, w1)
           | Some agent_id \<Rightarrow>
               if agent_id = [] then (Inr (Some agent_id), w1)
               else
                 (case api (DeleteAgent agent_id) w1 of
                    (Raises e, w2) \<Rightarrow> (Inl e, w2)
                  | (_, w2) \<Rightarrow>
                      (case wait_deleted agent_id w2 of
                         (Inl e, w3) \<Rightarrow> (Inl e, w3)
                       | (Inr u, w3) \<Rightarrow> (Inr (Some agent_id), w3)))))"

definition create_agent ::
  "string \<Rightarrow> string option \<Rightarrow> agent_world \<Rightarrow> (exn + string) \<times> agent_world" where
  "create_agent name agent_collaboration w =
     (case api (CreateAgent name agent_collaboration) w of
        (Raises e, w') \<Rightarrow> (Inl e, w')
      | (AgentCreated agent_id, w') \<Rightarrow> (Inr agent_id, w')
      | (_, w') \<Rightarrow> (Inl (key_error ''agent''), w'))"

text \<open>
  \<open>wait_for_agent_status\<close>: the loop \<open>for attempt in range(max_attempts)\<close> with \<open>n\<close>
  attempts left. Its \<open>except\<close> also catches the exception that the body raises on FAILED;
  it goes on only for a message with ResourceNotFoundException before the last attempt.
\<close>

definition status_check :: "string \<Rightarrow> string list \<Rightarrow> agent_world \<Rightarrow> (exn + bool) \<times> agent_world" where
  "status_check agent_id target_statuses w =
     (case api (GetAgent agent_id) w of
        (Raises e, w') \<Rightarrow> (Inl e, w')
      | (AgentStatus agent_status, w') \<Rightarrow>
          if agent_status \<in> set target_statuses then (Inr True, w')
          else if agent_status = ''FAILED'' then
            (Inl (PyError ''Exception''
                    (''Agent with ID '' @ agent_id @ '' creation failed.'')), w')
          else (Inr False, w')
      | (_, w') \<Rightarrow> (Inl (key_error ''agentStatus''), w'))"

fun wait_status_loop ::
  "string \<Rightarrow> string list \<Rightarrow> nat \<Rightarrow> nat \<Rightarrow> nat \<Rightarrow> agent_world \<Rightarrow> (exn + unit) \<times> agent_world" where
  "wait_status_loop agent_id target_statuses max_attempts attempt 0 w =
     (Inl (PyError ''Exception''
             (''Timed out waiting for agent with ID '' @ agent_id)), w)"
| "wait_status_loop agent_id target_statuses max_attempts attempt (Suc n) w =
     (case status_check agent_id target_statuses w of
        (Inr True, w') \<Rightarrow> (Inr (), w')
      | (Inr False, w') \<Rightarrow>
          wait_status_loop agent_id target_statuses max_attempts (attempt + 1) n w'
      | (Inl e, w') \<Rightarrow>
          if contains (str_of e) ''ResourceNotFoundException'' \<and> attempt < max_attempts - 1
          then wait_status_loop agent_id target_statuses max_attempts (attempt + 1) n w'
          else (Inl e, w'))"

definition wait_for_agent_status ::
  "string \<Rightarrow> string list \<Rightarrow> nat \<Rightarrow> agent_world \<Rightarrow> (exn + unit) \<times> agent_world" where
  "wait_for_agent_status agent_id target_statuses max_attempts w =
     wait_status_loop agent_id target_statuses max_attempts 0 max_attempts w"

definition prepare_agent :: "string \<Rightarrow> agent_world \<Rightarrow> (exn + string) \<times> agent_world" where
  "prepare_agent agent_id w =
     (case api (PrepareAgent agent_id) w of
        (Raises e, w') \<Rightarrow> (Inl e, w')
      | (AgentStatus s, w') \<Rightarrow> (Inr s, w')
      | (_, w') \<Rightarrow> (Inl (key_error ''agentStatus''), w'))"

text \<open>\<open>wait_for_agent_prepared\<close>: \<open>while True\<close>, left on PREPARED or by an exception.\<close>

function wait_for_agent_prepared :: "string \<Rightarrow> agent_world \<Rightarrow> (exn + unit) \<times> agent_world" where
  "wait_for_agent_prepared agent_id w =
     (case api (GetAgent agent_id) w of
        (Raises e, w') \<Rightarrow> (Inl e, w')
      | (AgentStatus agent_status, w') \<Rightarrow>
          if agent_status = ''PREPARED'' then (Inr (), w')
          else if agent_status = ''FAILED'' then
            (Inl (PyError ''Exception''
                    (''Agent with ID '' @ agent_id @ '' preparation failed.'')), w')
          else wait_for_agent_prepared agent_id w'
      | (_, w') \<Rightarrow> (Inl (key_error ''agentStatus''), w'))"
  by pat_completeness auto
termination
  by (relation "measure (\<lambda>(agent_id, w). length (script w))")
     (auto simp: api_def unavailable_def split: list.splits)

declare wait_for_agent_prepared.simps [simp del]

definition create_agent_alias ::
  "string \<Rightarrow> string \<Rightarrow> agent_world \<Rightarrow> (exn + string) \<times> agent_world" where
  "create_agent_alias agent_id alias_name w =
     (case api (CreateAgentAlias agent_id alias_name) w of
        (Raises e, w') \<Rightarrow> (Inl e, w')
      | (AliasCreated alias_id, w') \<Rightarrow> (Inr alias_id, w')
      | (_, w') \<Rightarrow> (Inl (key_error ''agentAlias''), w'))"

definition get_agent_type :: "string \<Rightarrow> string option" where
  "get_agent_type name =
     (let n = lower name in
      if contains n ''hr'' then Some ''hr''
      else if contains n ''payroll'' then Some ''payroll''
      else if contains n ''benefits'' then Some ''benefits''
      else if contains n ''helpdesk'' then Some ''helpdesk''
      else if contains n ''training'' then Some ''training''
      else if contains n ''search'' then Some ''search''
      else None)"

definition collaboration_instructions :: "(string \<times> string) list" where
  "collaboration_instructions =
     [(''hr'', ''The HR Support Specialist assists with employee queries related to HR policies and procedures.''),
      (''payroll'', ''The Payroll Support Specialist assists with payroll inquiries and tax information.''),
      (''benefits'', ''The Benefits Support Specialist assists with benefits enrollment and plan information.''),
      (''helpdesk'', ''The IT Support Specialist assists with account issues and technical troubleshooting.''),
      (''training'', ''The Learning Support Specialist assists with training programs and certifications.''),
      (''search'', ''The Web Search AI agent retrieves relevant information from trusted online sources.'')]"

definition collaboration_instruction :: "string \<Rightarrow> string" where
  "collaboration_instruction name =
     (case (case get_agent_type name of
              None \<Rightarrow> None
            | Some t \<Rightarrow> map_of collaboration_instructions t) of
        Some i \<Rightarrow> i
      | None \<Rightarrow> ''Use the '' @ name @ '' for specialized tasks in its domain.'')"

text \<open>
  \<open>create_agent_alias_descriptor\<close>: the alias ARN of the agent of that name, \<open>None\<close> when
  the agent or its alias is not found. Its calls are outside every \<open>try\<close>.
\<close>

definition create_agent_alias_descriptor ::
  "string \<Rightarrow> agent_world \<Rightarrow> (exn + string option) \<times> agent_world" where
  "create_agent_alias_descriptor name w =
     (case list_agents w of
        (Inl e, w1) \<Rightarrow> (Inl e, w1)
      | (Inr summaries, w1) \<Rightarrow>
          (case find_by_name name summaries of
             None \<Rightarrow> (Inr None, w1)
           | Some agent_id \<Rightarrow>
               if agent_id = [] then (Inr None, w1)
               else
                 (case api (ListAgentAliases agent_id) w1 of
                    (Raises e, w2) \<Rightarrow> (Inl e, w2)
                  | (r, w2) \<Rightarrow>
                      (case find_by_name (name @ ''_alias'')
                              (case r of AliasSummaries xs \<Rightarrow> xs | _ \<Rightarrow> []) of
                         None \<Rightarrow> (Inr None, w2)
                       | Some alias_id \<Rightarrow>
                           (case api (GetAgentAlias alias_id agent_id) w2 of
                              (Raises e, w3) \<Rightarrow> (Inl e, w3)
                            | (AliasArn arn, w3) \<Rightarrow> (Inr (Some arn), w3)
                            | (_, w3) \<Rightarrow> (Inl (key_error ''agentAlias''), w3))))))"

text \<open>
  The loop of \<open>add_collaborators_to_supervisor\<close> over the configurations, with the count
  so far. An exception of \<open>associate_agent_collaborator\<close> is logged and not counted.
\<close>

fun add_collaborators_loop ::
  "string \<Rightarrow> (string \<rightharpoonup> string \<times> string) \<Rightarrow> agent_config list \<Rightarrow> nat \<Rightarrow> agent_world
     \<Rightarrow> (exn + nat) \<times> agent_world" where
  "add_collaborators_loop supervisor_id created_agents [] collaborator_count w =
     (Inr collaborator_count, w)"
| "add_collaborators_loop supervisor_id created_agents (agent # agents) collaborator_count w =
     (if created_agents (agent_name agent) = None then
        add_collaborators_loop supervisor_id created_agents agents collaborator_count w
      else
        (case create_agent_alias_descriptor (agent_name agent) w of
           (Inl e, w1) \<Rightarrow> (Inl e, w1)
         | (Inr None, w1) \<Rightarrow>
             add_collaborators_loop supervisor_id created_agents agents collaborator_count w1
         | (Inr (Some arn), w1) \<Rightarrow>
             (case api (AssociateAgentCollaborator supervisor_id (agent_name agent) arn
                          (collaboration_instruction (agent_name agent))) w1 of
                (Raises e, w2) \<Rightarrow>
                  add_collaborators_loop supervisor_id created_agents agents collaborator_count w2
              | (_, w2) \<Rightarrow>
                  add_collaborators_loop supervisor_id created_agents agents
                    (collaborator_count + 1) w2)))"

definition add_collaborators_to_supervisor ::
  "string \<Rightarrow> (string \<rightharpoonup> string \<times> string) \<Rightarrow> agent_config list \<Rightarrow> agent_world
     \<Rightarrow> (exn + nat) \<times> agent_world" where
  "add_collaborators_to_supervisor supervisor_id created_agents agents w =
     (case add_collaborators_loop supervisor_id created_agents agents 0 w of
        (Inl e, w') \<Rightarrow> (Inl e, w')
      | (Inr collaborator_count, w') \<Rightarrow>
          if collaborator_count = 0 then
            (Inl (PyError ''Exception''
                    ''No collaborators were added to the supervisor agent. Cannot proceed with preparation.''),
             w')
          else (Inr collaborator_count, w'))"

text \<open>One pass of the \<open>try\<close> block of \<open>create_supervisor_agent\<close>.\<close>

definition supervisor_attempt ::
  "agent_config \<Rightarrow> (string \<rightharpoonup> string \<times> string) \<Rightarrow> agent_config list \<Rightarrow> agent_world
     \<Rightarrow> (exn + string \<times> string) \<times> agent_world" where
  "supervisor_attempt supervisor_config created_agents agent_configs w =
     (case check_and_delete_existing_agent (agent_name supervisor_config) w of
        (Inl e, w1) \<Rightarrow> (Inl e, w1)
      | (Inr existing, w1) \<Rightarrow>
          (case create_agent (agent_name supervisor_config) (Some ''SUPERVISOR'') w1 of
             (Inl e, w2) \<Rightarrow> (Inl e, w2)
           | (Inr agent_id, w2) \<Rightarrow>
               (case wait_for_agent_status agent_id [''PREPARED'', ''NOT_PREPARED''] 30 w2 of
                  (Inl e, w3) \<Rightarrow> (Inl e, w3)
                | (Inr u, w3) \<Rightarrow>
                    (case add_collaborators_to_supervisor agent_id created_agents
                            agent_configs w3 of
                       (Inl e, w4) \<Rightarrow> (Inl e, w4)
                     | (Inr collaborator_count, w4) \<Rightarrow>
                         (case prepare_agent agent_id w4 of
                            (Inl e, w5) \<Rightarrow> (Inl e, w5)
                          | (Inr s, w5) \<Rightarrow>
                              (case wait_for_agent_prepared agent_id w5 of
                                 (Inl e, w6) \<Rightarrow> (Inl e, w6)
                               | (Inr u', w6) \<Rightarrow>
                                   (case create_agent_alias agent_id
                                           (agent_name supervisor_config @ ''_alias'') w6 of
                                      (Inl e, w7) \<Rightarrow> (Inl e, w7)
                                    | (Inr agent_alias_id, w7) \<Rightarrow>
                                        (Inr (agent_id, agent_alias_id), w7))))))))"

text \<open>
  \<open>create_supervisor_agent\<close>: the loop \<open>for attempt in range(max_retries)\<close> with \<open>n\<close>
  attempts left; the last failing attempt raises its exception again.
\<close>

fun supervisor_attempts ::
  "agent_config \<Rightarrow> (string \<rightharpoonup> string \<times> string) \<Rightarrow> agent_config list \<Rightarrow> nat \<Rightarrow> agent_world
     \<Rightarrow> (exn + string \<times> string) \<times> agent_world" where
  "supervisor_attempts supervisor_config created_agents agent_configs 0 w =
     (Inl (PyError ''Exception'' ''Failed to create supervisor agent after 3 attempts''), w)"
| "supervisor_attempts supervisor_config created_agents agent_configs (Suc n) w =
     (case supervisor_attempt supervisor_config created_agents agent_configs w of
        (Inr ids, w') \<Rightarrow> (Inr ids, w')
      | (Inl e, w') \<Rightarrow>
          if n = 0 then (Inl e, w')
          else supervisor_attempts supervisor_config created_agents agent_configs n w')"

definition create_supervisor_agent ::
  "agent_config \<Rightarrow> (string \<rightharpoonup> string \<times> string) \<Rightarrow> agent_config list \<Rightarrow> agent_world
     \<Rightarrow> (exn + string \<times> string) \<times> agent_world" where
  "create_supervisor_agent supervisor_config created_agents agent_configs w =
     supervisor_attempts supervisor_config created_agents agent_configs 3 w"

section \<open>create\_oss.py: policies and collection\<close>

text \<open>
  The OpenSearch Serverless service, as a state: the security policies and the access
  policies it holds, each by type and name, and its collections by name. The operations
  follow the contract of the service that the claim is about: creating a policy or a
  collection under a name that is taken raises ConflictException (the "already exists"
  error); \<open>batch_get_collection\<close> answers the details of the named collection when it
  exists and no details otherwise. A new collection reads CREATING for
  \<open>creation_checks\<close> status reads and ACTIVE after that; its id and ARN are the
  service's choice, given by two functions of the name. Faults of the network are not
  modelled, and the sleeps are left out.
\<close>

record collection =
  coll_id :: string
  coll_arn :: string
  coll_creating :: nat

record aoss =
  security_policies :: "(string \<times> string) list"
  access_policies :: "(string \<times> string) list"
  collections :: "string \<rightharpoonup> collection"

record aoss_service =
  collection_id_for :: "string \<Rightarrow> string"
  collection_arn_for :: "string \<Rightarrow> string"
  creation_checks :: nat

record collection_detail =
  detail_id :: string
  detail_arn :: string
  detail_status :: string

definition conflict :: "string \<Rightarrow> string \<Rightarrow> exn" where
  "conflict operation name =
     ClientError ''ConflictException'' operation
       (''Resource with name '' @ name @ '' already exists'')"

definition create_security_policy :: "string \<Rightarrow> string \<Rightarrow> aoss \<Rightarrow> (exn + unit) \<times> aoss" where
  "create_security_policy name policy_type s =
     (if (policy_type, name) \<in> set (security_policies s) then
        (Inl (conflict ''CreateSecurityPolicy'' name), s)
      else (Inr (), s\<lparr>security_policies := security_policies s @ [(policy_type, name)]\<rparr>))"

definition create_access_policy :: "string \<Rightarrow> string \<Rightarrow> aoss \<Rightarrow> (exn + unit) \<times> aoss" where
  "create_access_policy name policy_type s =
     (if (policy_type, name) \<in> set (access_policies s) then
        (Inl (conflict ''CreateAccessPolicy'' name), s)
      else (Inr (), s\<lparr>access_policies := access_policies s @ [(policy_type, name)]\<rparr>))"

definition batch_get_collection ::
  "string \<Rightarrow> aoss \<Rightarrow> (exn + collection_detail list) \<times> aoss" where
  "batch_get_collection name s =
     (case collections s name of
        None \<Rightarrow> (Inr [], s)
      | Some c \<Rightarrow>
          if coll_creating c = 0 then
            (Inr [\<lparr>detail_id = coll_id c, detail_arn = coll_arn c,
                   detail_status = ''ACTIVE''\<rparr>], s)
          else
            (Inr [\<lparr>detail_id = coll_id c, detail_arn = coll_arn c,
                   detail_status = ''CREATING''\<rparr>],
             s\<lparr>collections := (collections s)(name \<mapsto> c\<lparr>coll_creating := coll_creating c - 1\<rparr>)\<rparr>))"

definition create_collection ::
  "aoss_service \<Rightarrow> string \<Rightarrow> aoss \<Rightarrow> (exn + string \<times> string) \<times> aoss" where
  "create_collection svc name s =
     (case collections s name of
        Some c \<Rightarrow> (Inl (conflict ''CreateCollection'' name), s)
      | None \<Rightarrow>
          (Inr (collection_id_for svc name, collection_arn_for svc name),
           s\<lparr>collections := (collections s)(name \<mapsto>
                \<lparr>coll_id = collection_id_for svc name, coll_arn = collection_arn_for svc name,
                 coll_creating = creation_checks svc\<rparr>)\<rparr>))"

text \<open>
  \<open>create_policies_for_collection\<close>: the three creations, one after the other, with no
  \<open>try\<close> around them and no look at what exists.
\<close>

definition create_policies_for_collection ::
  "string \<Rightarrow> string \<Rightarrow> string \<Rightarrow> string \<Rightarrow> aoss \<Rightarrow> (exn + bool) \<times> aoss" where
  "create_policies_for_collection collection_name enc_policy_name network_policy_name
     access_policy_name s =
     (case create_security_policy enc_policy_name ''encryption'' s of
        (Inl e, s1) \<Rightarrow> (Inl e, s1)
      | (Inr u, s1) \<Rightarrow>
          (case create_security_policy network_policy_name ''network'' s1 of
             (Inl e, s2) \<Rightarrow> (Inl e, s2)
           | (Inr u', s2) \<Rightarrow>
               (case create_access_policy access_policy_name ''data'' s2 of
                  (Inl e, s3) \<Rightarrow> (Inl e, s3)
                | (Inr u'', s3) \<Rightarrow> (Inr True, s3))))"

text \<open>The number of status reads of a collection that still answer CREATING.\<close>

definition creating_left :: "string \<Rightarrow> aoss \<Rightarrow> nat" where
  "creating_left name s = (case collections s name of None \<Rightarrow> 0 | Some c \<Rightarrow> coll_creating c)"

text \<open>
  The wait after the creation: a status read, and another one as long as the status is
  CREATING. \<open>response['collectionDetails'][0]\<close> raises IndexError on an empty list.
\<close>

function wait_while_creating :: "string \<Rightarrow> aoss \<Rightarrow> (exn + unit) \<times> aoss" where
  "wait_while_creating name s =
     (case batch_get_collection name s of
        (Inl e, s') \<Rightarrow> (Inl e, s')
      | (Inr [], s') \<Rightarrow> (Inl (PyError ''IndexError'' ''list index out of range''), s')
      | (Inr (d # ds), s') \<Rightarrow>
          if detail_status d = ''CREATING'' then wait_while_creating name s'
          else (Inr (), s'))"
  by pat_completeness auto
termination
  by (relation "measure (\<lambda>(name, s). creating_left name s)")
     (auto simp: batch_get_collection_def creating_left_def split: option.splits if_splits)

declare wait_while_creating.simps [simp del]

definition host_of :: "string \<Rightarrow> string \<Rightarrow> string" where
  "host_of collection_id region_name = collection_id @ ''.'' @ region_name @ ''.aoss.amazonaws.com''"

text \<open>
  \<open>create_or_get_collection\<close>: the details of an existing collection are returned at
  once; a ClientError other than ResourceNotFoundException of the first read is raised
  again; otherwise the collection is created and awaited.
\<close>

definition create_or_get_collection ::
  "aoss_service \<Rightarrow> string \<Rightarrow> string \<Rightarrow> aoss \<Rightarrow> (exn + string \<times> string \<times> string) \<times> aoss" where
  "create_or_get_collection svc collection_name region_name s =
     (let create_new = (\<lambda>s1.
            case create_collection svc collection_name s1 of
              (Inl e, s2) \<Rightarrow> (Inl e, s2)
            | (Inr (collection_id, collection_arn), s2) \<Rightarrow>
                (case wait_while_creating collection_name s2 of
                   (Inl e, s3) \<Rightarrow> (Inl e, s3)
                 | (Inr u, s3) \<Rightarrow>
                     (Inr (collection_id, collection_arn, host_of collection_id region_name), s3)))
      in case batch_get_collection collection_name s of
           (Inr (d # ds), s1) \<Rightarrow>
             (Inr (detail_id d, detail_arn d, host_of (detail_id d) region_name), s1)
         | (Inr [], s1) \<Rightarrow> create_new s1
         | (Inl (ClientError code op m), s1) \<Rightarrow>
             if code \<noteq> ''ResourceNotFoundException'' then (Inl (ClientError code op m), s1)
             else create_new s1
         | (Inl e, s1) \<Rightarrow> (Inl e, s1))"

text \<open>
  The provisioning sequence of the handler: step 1 creates the policies, step 2 creates
  or gets the collection; an exception of a step ends the sequence (the handler reports
  FAILED with the exception as the reason).
\<close>

definition provision ::
  "aoss_service \<Rightarrow> string \<Rightarrow> string \<Rightarrow> string \<Rightarrow> string \<Rightarrow> string \<Rightarrow> aoss
     \<Rightarrow> (exn + string \<times> string \<times> string) \<times> aoss" where
  "provision svc collection_name enc_policy_name network_policy_name access_policy_name
     region_name s =
     (case create_policies_for_collection collection_name enc_policy_name network_policy_name
             access_policy_name s of
        (Inl e, s1) \<Rightarrow> (Inl e, s1)
      | (Inr ok, s1) \<Rightarrow> create_or_get_collection svc collection_name region_name s1)"

section \<open>Observers used in the statements\<close>

text \<open>The \<open>messages\<close> list of a response body.\<close>

definition response_messages :: "response \<Rightarrow> json list" where
  "response_messages r =
     (case resp_body r of
        JObj kvs \<Rightarrow> (case map_of kvs ''messages'' of Some (JArr ms) \<Rightarrow> ms | _ \<Rightarrow> [])
      | _ \<Rightarrow> [])"

text \<open>
  The store takes a put when \<open>boto3.resource\<close> does not raise and CONVERSATION\_TABLE is
  set to a non-empty name.
\<close>

definition store_configured :: "invoke_env \<Rightarrow> bool" where
  "store_configured env =
     (dynamodb_resource_error env = None \<and> inv_conversation_table env \<noteq> None \<and>
      inv_conversation_table env \<noteq> Some [])"

text \<open>The session id of a request body: \<open>body.get('sessionId', str(uuid.uuid4()))\<close>.\<close>

definition session_of :: "invoke_env \<Rightarrow> (string \<times> json) list \<Rightarrow> json" where
  "session_of env kvs =
     (case map_of kvs ''sessionId'' of None \<Rightarrow> JStr (new_session_id env) | Some v \<Rightarrow> v)"





text \<open>The fixed domain set, as the keys of the mapping.\<close>

definition domains :: "string list" where
  "domains = [''hr'', ''payroll'', ''benefits'', ''helpdesk'', ''training'']"

text \<open>What one configuration adds to \<open>created_kbs\<close>: its entry, or nothing when its \<open>try\<close> raises.\<close>

definition created_of ::
  "kb_env \<Rightarrow> string \<Rightarrow> string \<Rightarrow> string \<Rightarrow> kb_config \<Rightarrow> created_kb list" where
  "created_of env uuid_suffix collection_arn collection_host cfg =
     (case process_kb_config env uuid_suffix collection_arn collection_host cfg of
        Inl e \<Rightarrow> []
      | Inr entry \<Rightarrow> [entry])"

text \<open>
  Observers of a list of recorded calls: the number of \<open>associate_agent_collaborator\<close>
  calls that did not raise, and whether a \<open>prepare_agent\<close> call is among them.
\<close>

fun is_association :: "agent_call \<times> agent_response \<Rightarrow> bool" where
  "is_association (AssociateAgentCollaborator s n a i, Raises e) = False"
| "is_association (AssociateAgentCollaborator s n a i, r) = True"
| "is_association (c, r) = False"

fun is_prepare :: "agent_call \<times> agent_response \<Rightarrow> bool" where
  "is_prepare (PrepareAgent a, r) = True"
| "is_prepare (c, r) = False"

definition associated :: "(agent_call \<times> agent_response) list \<Rightarrow> nat" where
  "associated cs = length (filter is_association cs)"

definition prepared :: "(agent_call \<times> agent_response) list \<Rightarrow> bool" where
  "prepared cs = list_ex is_prepare cs"

text \<open>A list of recorded calls without \<open>prepare_agent\<close> and without a successful association.\<close>

definition quiet :: "(agent_call \<times> agent_response) list \<Rightarrow> bool" where
  "quiet cs = (\<not> prepared cs \<and> associated cs = 0)"

text \<open>The world \<open>w'\<close> continues \<open>w\<close> by calls that are quiet.\<close>

definition quiet_step :: "agent_world \<Rightarrow> agent_world \<Rightarrow> bool" where
  "quiet_step w w' = (\<exists>new. call_log w' = call_log w @ new \<and> quiet new)"

text \<open>The exception of \<open>add_collaborators_to_supervisor\<close> for the count 0.\<close>

definition no_collaborators_error :: exn where
  "no_collaborators_error =
     PyError ''Exception''
       ''No collaborators were added to the supervisor agent. Cannot proceed with preparation.''"

section \<open>Example data\<close>

text \<open>
  The token payload of the specification's example: the JSON text, its base64url
  encoding without padding, and the object the text denotes.
\<close>

definition jwt_payload_text :: string where
  "jwt_payload_text = ''{\"sub\":\"u1\",\"cognito:username\":\"alice\",\"email\":\"a@x.com\"}''"

definition jwt_payload_b64 :: string where
  "jwt_payload_b64 =
     ''eyJzdWIiOiJ1MSIsImNvZ25pdG86dXNlcm5hbWUiOiJhbGljZSIsImVtYWlsIjoiYUB4LmNvbSJ9''"

definition jwt_claims :: json where
  "jwt_claims =
     JObj [(''sub'', JStr ''u1''), (''cognito:username'', JStr ''alice''),
           (''email'', JStr ''a@x.com'')]"

text \<open>
  Example data: a parser that knows the example payload, a request that carries the
  example token, a request with another scheme, a request without the header, and a
  table whose session \<open>s1\<close> holds a turn of user \<open>u1\<close> and a turn of user \<open>u2\<close>.
\<close>

definition example_loads :: "string \<Rightarrow> exn + json" where
  "example_loads s =
     (if s = jwt_payload_text then Inr jwt_claims
      else Inl (PyError ''JSONDecodeError'' ''Expecting value''))"

definition example_headers :: "string \<rightharpoonup> string" where
  "example_headers = [''Authorization'' \<mapsto> ''Bearer aGVhZA.'' @ jwt_payload_b64 @ ''.c2ln'']"

definition example_event :: event where
  "example_event =
     \<lparr>ev_headers = Some example_headers,
      ev_body = Some (Inr (JObj [(''message'', JStr ''hello''), (''sessionId'', JStr ''s1'')])),
      ev_pathParameters = Some [''sessionId'' \<mapsto> ''s1'']\<rparr>"

definition basic_auth_event :: event where
  "basic_auth_event =
     \<lparr>ev_headers = Some [''Authorization'' \<mapsto> ''Basic abc''], ev_body = None,
      ev_pathParameters = None\<rparr>"

definition no_header_event :: event where
  "no_header_event = \<lparr>ev_headers = Some Map.empty, ev_body = None, ev_pathParameters = None\<rparr>"

definition item_u1 :: item where
  "item_u1 =
     [(''userId'', JStr ''u1''), (''timestamp'', JStr ''2025-01-01 10:00:00''),
      (''sessionId'', JStr ''s1''), (''userQuery'', JStr ''q1''), (''response'', JStr ''r1'')]"

definition item_u2 :: item where
  "item_u2 =
     [(''userId'', JStr ''u2''), (''timestamp'', JStr ''2025-01-01 10:05:00''),
      (''sessionId'', JStr ''s1''), (''userQuery'', JStr ''q2''), (''response'', JStr ''r2'')]"

definition example_messages_env :: messages_env where
  "example_messages_env =
     \<lparr>conversation_table = Some ''conversations'',
      query_items = (\<lambda>sid. if sid = ''s1'' then Inr [item_u1, item_u2] else Inr []),
      scan_items = (\<lambda>sid. Inr [])\<rparr>"

text \<open>
  Example environments of the runtime handler. In the first, attempt 0 streams the chunk
  \<open>par\<close> and a rationale and then raises, attempt 1 raises at once, attempt 2 streams
  \<open>Hello\<close> and succeeds; the table is configured. In the second the first attempt
  succeeds and CONVERSATION\_TABLE is not set. In the third the first attempt succeeds, the
  table is configured and \<open>put_item\<close> raises. In the fourth every call raises.
\<close>

definition example_invoke_env :: invoke_env where
  "example_invoke_env =
     \<lparr>invoke_agent_result = (\<lambda>n.
        if n = 0 then
          Inr \<lparr>events = [\<lparr>chunk = Some (Inr ''par''), rationale = Some (Inr ''think'')\<rparr>],
               stream_error = Some (PyError ''EventStreamError'' ''stream broken'')\<rparr>
        else if n = 2 then
          Inr \<lparr>events = [\<lparr>chunk = Some (Inr ''Hello''), rationale = None\<rparr>],
               stream_error = None\<rparr>
        else Inl (ClientError ''ThrottlingException'' ''InvokeAgent'' ''Rate exceeded'')),
      inv_conversation_table = Some ''conversations'',
      dynamodb_resource_error = None,
      put_item_error = (\<lambda>it. None),
      new_session_id = ''generated-session'',
      new_message_id = ''m-1'',
      now_timestamp = ''2025-01-01 10:00:00''\<rparr>"

definition unconfigured_invoke_env :: invoke_env where
  "unconfigured_invoke_env =
     \<lparr>invoke_agent_result = (\<lambda>n.
        Inr \<lparr>events = [\<lparr>chunk = Some (Inr ''Hello''), rationale = None\<rparr>],
             stream_error = None\<rparr>),
      inv_conversation_table = None,
      dynamodb_resource_error = None,
      put_item_error = (\<lambda>it. None),
      new_session_id = ''generated-session'',
      new_message_id = ''m-1'',
      now_timestamp = ''2025-01-01 10:00:00''\<rparr>"

definition throttled_invoke_env :: invoke_env where
  "throttled_invoke_env =
     \<lparr>invoke_agent_result = (\<lambda>n.
        Inr \<lparr>events = [\<lparr>chunk = Some (Inr ''Hello''), rationale = None\<rparr>],
             stream_error = None\<rparr>),
      inv_conversation_table = Some ''conversations'',
      dynamodb_resource_error = None,
      put_item_error = (\<lambda>it.
        Some (ClientError ''ProvisionedThroughputExceededException'' ''PutItem''
                ''Rate exceeded'')),
      new_session_id = ''generated-session'',
      new_message_id = ''m-1'',
      now_timestamp = ''2025-01-01 10:00:00''\<rparr>"

definition failing_invoke_env :: invoke_env where
  "failing_invoke_env =
     \<lparr>invoke_agent_result =
        (\<lambda>n. Inl (ClientError ''ThrottlingException'' ''InvokeAgent'' ''Rate exceeded'')),
      inv_conversation_table = Some ''conversations'',
      dynamodb_resource_error = None,
      put_item_error = (\<lambda>it. None),
      new_session_id = ''generated-session'',
      new_message_id = ''m-1'',
      now_timestamp = ''2025-01-01 10:00:00''\<rparr>"

definition empty_dynamo :: dynamo where
  "empty_dynamo = \<lparr>table = [], put_calls = []\<rparr>"

text \<open>
  Example data of the ingestion trigger: the mapping publishes a knowledge base for
  \<open>hr\<close> only, which has the data sources \<open>DS1\<close> and \<open>DS2\<close>. In the first environment
  the service accepts every \<open>start_ingestion_job\<close> call; in the second it refuses every
  call, as it does while a job of the data source is still running.
\<close>

definition example_trigger_env :: trigger_env where
  "example_trigger_env =
     \<lparr>knowledge_bases_var = Inr (JObj [(''hr'', JStr ''KB1'')]),
      list_data_sources_result = (\<lambda>kb.
        if kb = JStr ''KB1'' then
          Inr (JObj [(''dataSourceSummaries'',
                      JArr [JObj [(''dataSourceId'', JStr ''DS1'')],
                            JObj [(''dataSourceId'', JStr ''DS2'')]])])
        else Inr (JObj [(''dataSourceSummaries'', JArr [])])),
      start_ingestion_job_result = (\<lambda>n kb ds.
        Inr (JObj [(''ingestionJob'', JObj [(''ingestionJobId'', JStr ''J1'')])]))\<rparr>"

definition busy_trigger_env :: trigger_env where
  "busy_trigger_env =
     \<lparr>knowledge_bases_var = Inr (JObj [(''hr'', JStr ''KB1'')]),
      list_data_sources_result = (\<lambda>kb.
        Inr (JObj [(''dataSourceSummaries'', JArr [JObj [(''dataSourceId'', JStr ''DS1'')]])])),
      start_ingestion_job_result = (\<lambda>n kb ds.
        Inl (ClientError ''ConflictException'' ''StartIngestionJob''
               ''An ingestion job is already in progress for this data source''))\<rparr>"

definition no_ingestion :: ingestion where
  "no_ingestion = \<lparr>start_calls = [], started_jobs = []\<rparr>"







text \<open>
  Example environments of the knowledge base provisioner. In the first the creation of
  the knowledge base for \<open>hr\<close> raises at every attempt and every other call succeeds. In
  the second every call succeeds, and each status check of the knowledge base reads FAILED.
\<close>

definition hr_config :: kb_config where
  "hr_config = hd (knowledge_bases ''abcde'')"

definition hr_failing_env :: kb_env where
  "hr_failing_env =
     \<lparr>credentials_error = None,
      indices_create_error = (\<lambda>index_name attempt. None),
      create_knowledge_base_result = (\<lambda>cfg attempt.
        if kb_folder cfg = ''hr'' then
          Inl (ClientError ''ValidationException'' ''CreateKnowledgeBase'' ''no such index'')
        else Inr (JObj [(''knowledgeBase'',
                         JObj [(''knowledgeBaseId'', JStr (''KB-'' @ kb_folder cfg))])])),
      create_data_source_result = (\<lambda>kb_id name folder.
        Inr (JObj [(''dataSource'', JObj [(''dataSourceId'', JStr (''DS-'' @ folder))])])),
      get_knowledge_base_status = (\<lambda>kb_id i. Inr ''ACTIVE''),
      start_ingestion_result = (\<lambda>kb_id ds_id.
        Inr (JObj [(''ingestionJob'',
                    JObj [(''ingestionJobId'', JStr ''J1''), (''status'', JStr ''COMPLETE'')])])),
      get_ingestion_job_result = (\<lambda>kb_id ds_id job_id n.
        Inr (JObj [(''ingestionJob'',
                    JObj [(''ingestionJobId'', JStr ''J1''), (''status'', JStr ''COMPLETE'')])]))\<rparr>"

definition failed_kb_env :: kb_env where
  "failed_kb_env =
     \<lparr>credentials_error = None,
      indices_create_error = (\<lambda>index_name attempt. None),
      create_knowledge_base_result = (\<lambda>cfg attempt.
        Inr (JObj [(''knowledgeBase'',
                    JObj [(''knowledgeBaseId'', JStr (''KB-'' @ kb_folder cfg))])])),
      create_data_source_result = (\<lambda>kb_id name folder.
        Inr (JObj [(''dataSource'', JObj [(''dataSourceId'', JStr (''DS-'' @ folder))])])),
      get_knowledge_base_status = (\<lambda>kb_id i. Inr ''FAILED''),
      start_ingestion_result = (\<lambda>kb_id ds_id.
        Inr (JObj [(''ingestionJob'',
                    JObj [(''ingestionJobId'', JStr ''J1''), (''status'', JStr ''COMPLETE'')])])),
      get_ingestion_job_result = (\<lambda>kb_id ds_id job_id n.
        Inr (JObj [(''ingestionJob'',
                    JObj [(''ingestionJobId'', JStr ''J1''), (''status'', JStr ''COMPLETE'')])]))\<rparr>"

text \<open>
  Example of a supervisor composition: the specialist \<open>eva_hr_x\<close> was created, but the
  service lists no agent of that name, so no collaborator can be resolved. The script
  answers the four calls of the first attempt; then the service is unavailable.
\<close>

definition example_supervisor_config :: agent_config where
  "example_supervisor_config =
     \<lparr>agent_name = ''eva_supervisor_x'', foundation_model = ''model'',
      description = ''supervisor'', instruction = ''route''\<rparr>"

definition example_agent_configs :: "agent_config list" where
  "example_agent_configs =
     [\<lparr>agent_name = ''eva_hr_x'', foundation_model = ''model'',
       description = ''hr'', instruction = ''answer''\<rparr>]"

definition example_created_agents :: "string \<rightharpoonup> string \<times> string" where
  "example_created_agents = [''eva_hr_x'' \<mapsto> (''A1'', ''AL1'')]"

definition example_agent_world :: agent_world where
  "example_agent_world =
     \<lparr>script = [AgentSummaries [], AgentCreated ''SUP'', AgentStatus ''NOT_PREPARED'',
                AgentSummaries []],
      call_log = []\<rparr>"

text \<open>An account with no policy and no collection, and a service for the examples.\<close>

definition empty_aoss :: aoss where
  "empty_aoss = \<lparr>security_policies = [], access_policies = [], collections = Map.empty\<rparr>"

definition example_service :: aoss_service where
  "example_service =
     \<lparr>collection_id_for = (\<lambda>name. ''id-'' @ name),
      collection_arn_for = (\<lambda>name. ''arn:aws:aoss:us-east-1:111122223333:collection/id-'' @ name),
      creation_checks = 2\<rparr>"

chapter \<open>Properties\<close>

section \<open>Splitting strings\<close>

lemma split_chr_nosep: "sep \<notin> set a \<Longrightarrow> split_chr sep a = [a]"
  by (induction a) auto

lemma split_chr_append:
  "sep \<notin> set a \<Longrightarrow> split_chr sep (a @ sep # b) = a # split_chr sep b"
  by (induction a) (auto split: list.splits)

section \<open>Identity extraction\<close>

lemma jwt_payload_decodes: "b64decode (add_padding jwt_payload_b64) = Inr jwt_payload_text"
  by code_simp

lemma jwt_payload_chars:
  "CHR ''.'' \<notin> set jwt_payload_b64 \<and> CHR '' '' \<notin> set jwt_payload_b64"
  by code_simp

lemma token_details_jwt:
  assumes "loads jwt_payload_text = Inr jwt_claims"
    and "CHR ''.'' \<notin> set h" and "CHR ''.'' \<notin> set sg"
  shows "token_details loads (h @ ''.'' @ jwt_payload_b64 @ ''.'' @ sg) =
     Inr \<lparr>userId = JStr ''u1'', username = JStr ''alice'', email = JStr ''a@x.com''\<rparr>"
proof -
  have parts: "split_chr (CHR ''.'') (h @ ''.'' @ jwt_payload_b64 @ ''.'' @ sg) =
      [h, jwt_payload_b64, sg]"
    using assms(2,3) jwt_payload_chars by (simp add: split_chr_append split_chr_nosep)
  show ?thesis
    unfolding token_details_def parts
    by (simp add: py_index_def jwt_payload_decodes assms(1)) (simp add: jwt_claims_def)
qed

lemma bearer_split:
  assumes "CHR '' '' \<notin> set t"
  shows "py_index (split_chr (CHR '' '') (''Bearer '' @ t)) 1 = Inr t"
proof -
  have "split_chr (CHR '' '') (''Bearer'' @ CHR '' '' # t) = [''Bearer'', t]"
    using assms by (subst split_chr_append) (simp_all add: split_chr_nosep)
  then show ?thesis by (simp add: py_index_def)
qed

lemma extract_jwt:
  assumes "loads jwt_payload_text = Inr jwt_claims"
    and "ev_headers ev = Some hs"
    and "auth_header hs = Some (''Bearer '' @ h @ ''.'' @ jwt_payload_b64 @ ''.'' @ sg)"
    and "CHR ''.'' \<notin> set h" and "CHR '' '' \<notin> set h"
    and "CHR ''.'' \<notin> set sg" and "CHR '' '' \<notin> set sg"
  shows "extract_user_details loads ev =
     \<lparr>userId = JStr ''u1'', username = JStr ''alice'', email = JStr ''a@x.com''\<rparr>"
proof -
  define t where "t = h @ ''.'' @ jwt_payload_b64 @ ''.'' @ sg"
  define a where "a = ''Bearer '' @ t"
  have nosp: "CHR '' '' \<notin> set t"
    using assms(5,7) jwt_payload_chars by (simp add: t_def)
  have "py_index (split_chr (CHR '' '') a) 1 = Inr t"
    unfolding a_def by (rule bearer_split [OF nosp])
  then have tok: "py_index (split_chr (CHR '' '') a) (Suc 0) = Inr t"
    by simp
  have st: "startswith a ''Bearer ''" "a \<noteq> []"
    by (simp_all add: a_def)
  have det: "token_details loads t =
      Inr \<lparr>userId = JStr ''u1'', username = JStr ''alice'', email = JStr ''a@x.com''\<rparr>"
    unfolding t_def by (rule token_details_jwt [of loads h sg, OF assms(1,4,6)])
  have hdr: "auth_header hs = Some a"
    using assms(3) by (simp only: a_def t_def)
  show ?thesis
    unfolding extract_user_details_def extract_user_details_try_def
    by (simp add: assms(2) hdr st tok det)
qed

lemma extract_not_anonymous:
  assumes "extract_user_details loads ev \<noteq> anonymous"
  shows "\<exists>hs a token h p sg bytes kvs.
      ev_headers ev = Some hs \<and> auth_header hs = Some a \<and> startswith a ''Bearer '' \<and>
      py_index (split_chr (CHR '' '') a) 1 = Inr token \<and>
      split_chr (CHR ''.'') token = [h, p, sg] \<and>
      b64decode (add_padding p) = Inr bytes \<and> loads bytes = Inr (JObj kvs)"
proof -
  from assms obtain hs where hs: "ev_headers ev = Some hs"
    by (auto simp: extract_user_details_def extract_user_details_try_def split: option.splits)
  from assms hs obtain a where a: "auth_header hs = Some a" "startswith a ''Bearer ''"
    by (auto simp: extract_user_details_def extract_user_details_try_def
        split: option.splits if_splits)
  from assms hs a obtain token where t: "py_index (split_chr (CHR '' '') a) 1 = Inr token"
     and d: "token_details loads token \<noteq> Inr anonymous" "token_details loads token \<noteq> Inl e" for e
    by (auto simp: extract_user_details_def extract_user_details_try_def
        split: option.splits if_splits sum.splits)
  from d have len: "length (split_chr (CHR ''.'') token) = 3"
    by (auto simp: token_details_def Let_def split: if_splits)
  then obtain h p sg where parts: "split_chr (CHR ''.'') token = [h, p, sg]"
    by (auto simp: length_Suc_conv numeral_3_eq_3)
  from d parts obtain bytes where b: "b64decode (add_padding p) = Inr bytes"
    by (cases "b64decode (add_padding p)") (auto simp: token_details_def py_index_def)
  from d parts b obtain j where j: "loads bytes = Inr j"
    by (cases "loads bytes") (auto simp: token_details_def py_index_def)
  from d parts b j obtain kvs where "j = JObj kvs"
    by (cases j) (auto simp: token_details_def py_index_def)
  with hs a t parts b j show ?thesis by blast
qed

text \<open>
  Claim C6. A request whose Authorization header is \<open>Bearer h.p.s\<close>, where \<open>p\<close> is the
  unpadded base64url encoding of the example payload (and \<open>h\<close>, \<open>s\<close> are segments without
  dot or space), yields the identity \<open>u1\<close>, \<open>alice\<close>, \<open>a@x.com\<close>, given that the JSON
  library parses the payload text to the object it denotes. In the other direction,
  \<open>extract_user_details\<close> always returns (it is a total function: both \<open>except\<close> clauses
  answer), and whenever its answer is not the anonymous identity, the header was present,
  started with \<open>Bearer\<close>, its token had three segments, and the middle segment decoded to
  a JSON object: every missing or malformed header and every undecodable token yields the
  anonymous identity.
\<close>

theorem extract_user_details_identity:
  "(loads jwt_payload_text = Inr jwt_claims \<and> ev_headers ev = Some hs \<and>
    auth_header hs = Some (''Bearer '' @ h @ ''.'' @ jwt_payload_b64 @ ''.'' @ sg) \<and>
    CHR ''.'' \<notin> set h \<and> CHR '' '' \<notin> set h \<and> CHR ''.'' \<notin> set sg \<and> CHR '' '' \<notin> set sg
    \<longrightarrow> extract_user_details loads ev =
          \<lparr>userId = JStr ''u1'', username = JStr ''alice'', email = JStr ''a@x.com''\<rparr>)
   \<and> (extract_user_details loads' ev' \<noteq> anonymous \<longrightarrow>
        (\<exists>hs' a token h' p sg' bytes kvs.
           ev_headers ev' = Some hs' \<and> auth_header hs' = Some a \<and> startswith a ''Bearer '' \<and>
           py_index (split_chr (CHR '' '') a) 1 = Inr token \<and>
           split_chr (CHR ''.'') token = [h', p, sg'] \<and>
           b64decode (add_padding p) = Inr bytes \<and> loads' bytes = Inr (JObj kvs)))"
  using extract_jwt [of loads ev hs h sg] extract_not_anonymous [of loads' ev']
  by blast

theorem extract_user_details_identity_witness:
  "extract_user_details example_loads example_event =
     \<lparr>userId = JStr ''u1'', username = JStr ''alice'', email = JStr ''a@x.com''\<rparr>
   \<and> extract_user_details example_loads basic_auth_event = anonymous
   \<and> extract_user_details example_loads no_header_event = anonymous"
proof -
  have 1: "extract_user_details example_loads example_event =
      \<lparr>userId = JStr ''u1'', username = JStr ''alice'', email = JStr ''a@x.com''\<rparr>"
    using extract_user_details_identity
      [of example_loads example_event example_headers "''aGVhZA''" "''c2ln''"]
    by (simp add: example_loads_def example_event_def example_headers_def auth_header_def)
  have 2: "extract_user_details example_loads basic_auth_event = anonymous"
    using extract_user_details_identity [of _ _ _ _ _ example_loads basic_auth_event]
    by (auto simp: auth_header_def basic_auth_event_def)
  have 3: "extract_user_details example_loads no_header_event = anonymous"
    using extract_user_details_identity [of _ _ _ _ _ example_loads no_header_event]
    by (auto simp: auth_header_def no_header_event_def)
  from 1 2 3 show ?thesis by blast
qed

section \<open>Messages of a session\<close>

lemma collect_messages_eq:
  "collect_messages uid items =
     map format_message (filter (\<lambda>it. item_get it ''userId'' JNull = uid) items)"
  by (induction items) auto

text \<open>
  Claim C10. Every message of a response of the by-session handler is the formatted form
  of an item that the table returned for the requested session and whose \<open>userId\<close> equals
  the caller's extracted \<open>userId\<close>; in a 200 response the list is exactly the formatted
  items of the caller, in the order of the table's answer, so an item of the session with
  another \<open>userId\<close> contributes nothing.
\<close>

theorem messages_only_of_caller:
  "(\<forall>m \<in> set (response_messages (messages_handler loads env ev)).
      \<exists>pp session_id items it.
        ev_pathParameters ev = Some pp \<and> pp ''sessionId'' = Some session_id \<and>
        fetch_items env session_id = Inr items \<and> it \<in> set items \<and>
        item_get it ''userId'' JNull = userId (extract_user_details loads ev) \<and>
        m = format_message it)
   \<and> (statusCode (messages_handler loads env ev) = 200 \<longrightarrow>
       (\<exists>pp session_id items.
          ev_pathParameters ev = Some pp \<and> pp ''sessionId'' = Some session_id \<and>
          fetch_items env session_id = Inr items \<and>
          response_messages (messages_handler loads env ev) =
            map format_message
              (filter (\<lambda>it. item_get it ''userId'' JNull =
                            userId (extract_user_details loads ev)) items)))"
  by (auto simp: messages_handler_def Let_def make_response_def response_messages_def
      collect_messages_eq split: option.splits if_splits sum.splits)

theorem messages_only_of_caller_witness:
  "statusCode (messages_handler example_loads example_messages_env example_event) = 200
   \<and> response_messages (messages_handler example_loads example_messages_env example_event) =
       [format_message item_u1]"
proof -
  have uid: "userId (extract_user_details example_loads example_event) = JStr ''u1''"
    using extract_jwt [of example_loads example_event example_headers "''aGVhZA''" "''c2ln''"]
    by (simp add: example_loads_def example_event_def example_headers_def auth_header_def)
  have st: "statusCode (messages_handler example_loads example_messages_env example_event) = 200"
    by (simp add: messages_handler_def example_event_def example_messages_env_def
        fetch_items_def make_response_def Let_def)
  have own: "filter (\<lambda>it. item_get it ''userId'' JNull = JStr ''u1'') [item_u1, item_u2] = [item_u1]"
    by (simp add: item_get_def item_u1_def item_u2_def)
  from messages_only_of_caller [of example_loads example_messages_env example_event] st
  obtain pp session_id items where
    "ev_pathParameters example_event = Some pp" "pp ''sessionId'' = Some session_id"
    "fetch_items example_messages_env session_id = Inr items"
    "response_messages (messages_handler example_loads example_messages_env example_event) =
       map format_message (filter (\<lambda>it. item_get it ''userId'' JNull = JStr ''u1'') items)"
    unfolding uid by blast
  moreover from this have "session_id = ''s1''"
    by (auto simp add: example_event_def)
  moreover from calculation have "items = [item_u1, item_u2]"
    by (simp add: fetch_items_def example_messages_env_def)
  ultimately show ?thesis using st own by simp
qed

section \<open>The retry loop of the runtime handler\<close>

lemma process_events_acc:
  "process_events eds full steps =
     (case process_events eds [] [] of (e, f, s) \<Rightarrow> (e, full @ f, steps @ s))"
proof (induction eds arbitrary: full steps)
  case Nil then show ?case by simp
next
  case (Cons ed eds)
  obtain e f s where base: "process_events eds [] [] = (e, f, s)"
    by (cases "process_events eds [] []") auto
  have gen: "process_events eds F S = (e, F @ f, S @ s)" for F S
    using Cons.IH [of F S] base by simp
  show ?case
    by (simp add: gen split: option.splits sum.splits)
qed

lemma run_attempt_acc:
  "run_attempt env i full steps =
     (attempt_error env i, full @ attempt_text env i, steps @ attempt_steps env i)"
proof -
  have "process_events eds full steps =
     (case process_events eds [] [] of (e, f, s) \<Rightarrow> (e, full @ f, steps @ s))" for eds
    by (rule process_events_acc)
  then show ?thesis
    unfolding run_attempt_def attempt_error_def attempt_text_def attempt_steps_def
    by (auto split: sum.splits prod.splits option.splits)
qed

lemma retry_loop_success:
  assumes "k < max_retries" "a \<le> k"
    and "\<forall>i. a \<le> i \<and> i < k \<longrightarrow> attempt_error env i \<noteq> None"
    and "attempt_error env k = None"
  shows "retry_loop env u sid inp a full steps db =
     (success_response (full @ concat (map (attempt_text env) [a..<Suc k]))
        (steps @ concat (map (attempt_steps env) [a..<Suc k])) sid,
      save_conversation env u sid inp (full @ concat (map (attempt_text env) [a..<Suc k]))
        (steps @ concat (map (attempt_steps env) [a..<Suc k])) db)"
  using assms
proof (induction "k - a" arbitrary: a full steps)
  case 0
  then have "a = k" by simp
  with 0 show ?case
    by (subst retry_loop.simps) (simp add: run_attempt_acc)
next
  case (Suc d)
  then have lt: "a < k" by simp
  with Suc.prems have err: "attempt_error env a \<noteq> None" by simp
  then obtain e where e: "attempt_error env a = Some e" by auto
  have up: "[a..<Suc k] = a # [Suc a..<Suc k]"
    using lt by (simp add: upt_conv_Cons)
  have IH: "retry_loop env u sid inp (Suc a) F S db =
     (success_response (F @ concat (map (attempt_text env) [Suc a..<Suc k]))
        (S @ concat (map (attempt_steps env) [Suc a..<Suc k])) sid,
      save_conversation env u sid inp (F @ concat (map (attempt_text env) [Suc a..<Suc k]))
        (S @ concat (map (attempt_steps env) [Suc a..<Suc k])) db)" for F S
    using Suc.hyps(1) [of "Suc a" F S] Suc.hyps(2) Suc.prems lt by simp
  show ?case
    using lt Suc.prems(1)
    by (subst retry_loop.simps) (simp add: run_attempt_acc e IH up del: upt_Suc)
qed

lemma retry_loop_failure:
  assumes "a < max_retries"
    and "\<forall>i. a \<le> i \<and> i < max_retries \<longrightarrow> attempt_error env i \<noteq> None"
  shows "\<exists>e. retry_loop env u sid inp a full steps db = (failure_response e, db)"
  using assms
proof (induction "max_retries - a" arbitrary: a full steps)
  case 0 then show ?case by simp
next
  case (Suc d)
  then obtain e where e: "attempt_error env a = Some e" by auto
  show ?case
  proof (cases "max_retries \<le> a + 1")
    case True
    then show ?thesis using Suc.prems(1)
      by (subst retry_loop.simps) (auto simp add: run_attempt_acc e)
  next
    case False
    then have "\<exists>e. retry_loop env u sid inp (Suc a) F S db = (failure_response e, db)" for F S
      using Suc.hyps(1) [of "Suc a" F S] Suc.hyps(2) Suc.prems by simp
    then show ?thesis using Suc.prems(1) False
      by (subst retry_loop.simps) (simp add: run_attempt_acc e)
  qed
qed

lemma invoke_handler_success:
  assumes "ev_body ev = Some (Inr (JObj kvs))" and "map_of kvs ''message'' = Some msg"
    and "truthy msg" and "k < max_retries"
    and "\<forall>i. i < k \<longrightarrow> attempt_error env i \<noteq> None" and "attempt_error env k = None"
  shows "invoke_handler loads env ev db =
     (Inr (success_response (concat (map (attempt_text env) [0..<Suc k]))
             (concat (map (attempt_steps env) [0..<Suc k])) (session_of env kvs)),
      save_conversation env (extract_user_details loads ev) (session_of env kvs) msg
        (concat (map (attempt_text env) [0..<Suc k]))
        (concat (map (attempt_steps env) [0..<Suc k])) db)"
proof -
  have "retry_loop env u sid msg 0 [] [] db =
     (success_response ([] @ concat (map (attempt_text env) [0..<Suc k]))
        ([] @ concat (map (attempt_steps env) [0..<Suc k])) sid,
      save_conversation env u sid msg ([] @ concat (map (attempt_text env) [0..<Suc k]))
        ([] @ concat (map (attempt_steps env) [0..<Suc k])) db)" for u sid
    using assms(4,5,6) by (intro retry_loop_success) auto
  then show ?thesis
    using assms(1,2,3)
    by (simp add: invoke_handler_def session_of_def Let_def del: upt_Suc)
qed

lemma invoke_handler_failure:
  assumes "ev_body ev = Some (Inr (JObj kvs))" and "map_of kvs ''message'' = Some msg"
    and "truthy msg"
    and "\<forall>i. i < max_retries \<longrightarrow> attempt_error env i \<noteq> None"
  shows "\<exists>e. invoke_handler loads env ev db = (Inr (failure_response e), db)"
proof -
  have "\<exists>e. retry_loop env u sid msg 0 [] [] db = (failure_response e, db)" for u sid
    using assms(4) by (intro retry_loop_failure) (auto simp: max_retries_def)
  then obtain e where "retry_loop env (extract_user_details loads ev) (session_of env kvs) msg 0 [] [] db = (failure_response e, db)"
    by blast
  then show ?thesis
    using assms(1,2,3)
    by (auto simp add: invoke_handler_def session_of_def Let_def)
qed

lemma save_conversation_cases:
  "(store_configured env \<longrightarrow>
      put_calls (save_conversation env u sid q r s db) = put_calls db @ [conversation_item env u sid q r s] \<and>
      table (save_conversation env u sid q r s db) =
        (if put_item_error env (conversation_item env u sid q r s) = None
         then table db @ [conversation_item env u sid q r s] else table db))
   \<and> (\<not> store_configured env \<longrightarrow> save_conversation env u sid q r s db = db)"
  by (auto simp: save_conversation_def store_configured_def Let_def split: option.splits)

lemma example_attempts:
  "attempt_error example_invoke_env 0 \<noteq> None" "attempt_error example_invoke_env (Suc 0) \<noteq> None"
  "attempt_error example_invoke_env 2 = None"
  "attempt_text example_invoke_env 0 = ''par''" "attempt_text example_invoke_env (Suc 0) = []"
  "attempt_text example_invoke_env 2 = ''Hello''"
  "attempt_steps example_invoke_env 0 = [''think'']" "attempt_steps example_invoke_env (Suc 0) = []"
  "attempt_steps example_invoke_env 2 = []"
  by (simp_all add: attempt_error_def attempt_text_def attempt_steps_def run_attempt_def example_invoke_env_def)

text \<open>
  Claim C5, as amended. For a request whose body carries a non-empty message: when the
  first \<open>k\<close> attempts (\<open>k < 5\<close>) raise and the next one does not, the handler answers 200
  and \<open>save_conversation\<close> runs once, after the successful attempt: when the store is
  configured it makes one \<open>put_item\<close> call, which adds one Conversation Turn to the table
  unless the put raises; when the store is not configured nothing is put and the table is
  unchanged. The failed attempts write nothing. When all 5 attempts raise, the handler
  answers 500 and the table and the put calls are unchanged.
\<close>

theorem invoke_retry_single_write:
  "ev_body ev = Some (Inr (JObj kvs)) \<and> map_of kvs ''message'' = Some msg \<and> truthy msg \<longrightarrow>
   (k < 5 \<and> (\<forall>i. i < k \<longrightarrow> attempt_error env i \<noteq> None) \<and> attempt_error env k = None \<longrightarrow>
      (\<exists>r db' turn.
         invoke_handler loads env ev db = (Inr r, db') \<and> statusCode r = 200 \<and>
         (if store_configured env then
            put_calls db' = put_calls db @ [turn] \<and>
            table db' = (if put_item_error env turn = None then table db @ [turn] else table db)
          else db' = db)))
   \<and> ((\<forall>i. i < 5 \<longrightarrow> attempt_error env i \<noteq> None) \<longrightarrow>
      (\<exists>r. invoke_handler loads env ev db = (Inr r, db) \<and> statusCode r = 500))"
proof (intro impI conjI)
  assume b: "ev_body ev = Some (Inr (JObj kvs)) \<and> map_of kvs ''message'' = Some msg \<and> truthy msg"
    and k: "k < 5 \<and> (\<forall>i. i < k \<longrightarrow> attempt_error env i \<noteq> None) \<and> attempt_error env k = None"
  let ?T = "concat (map (attempt_text env) [0..<Suc k])"
  let ?S = "concat (map (attempt_steps env) [0..<Suc k])"
  let ?u = "extract_user_details loads ev"
  have h: "invoke_handler loads env ev db =
     (Inr (success_response ?T ?S (session_of env kvs)),
      save_conversation env ?u (session_of env kvs) msg ?T ?S db)"
    using b k by (intro invoke_handler_success) (auto simp: max_retries_def)
  show "\<exists>r db' turn.
         invoke_handler loads env ev db = (Inr r, db') \<and> statusCode r = 200 \<and>
         (if store_configured env then
            put_calls db' = put_calls db @ [turn] \<and>
            table db' = (if put_item_error env turn = None then table db @ [turn] else table db)
          else db' = db)"
    unfolding h
    using save_conversation_cases [of env ?u "session_of env kvs" msg ?T ?S db]
    by (intro exI [of _ "success_response ?T ?S (session_of env kvs)"]
        exI [of _ "save_conversation env ?u (session_of env kvs) msg ?T ?S db"]
        exI [of _ "conversation_item env ?u (session_of env kvs) msg ?T ?S"])
      (simp add: success_response_def del: upt_Suc)
next
  assume b: "ev_body ev = Some (Inr (JObj kvs)) \<and> map_of kvs ''message'' = Some msg \<and> truthy msg"
    and f: "\<forall>i. i < 5 \<longrightarrow> attempt_error env i \<noteq> None"
  then obtain e where "invoke_handler loads env ev db = (Inr (failure_response e), db)"
    using invoke_handler_failure [of ev kvs msg env loads db] by (auto simp: max_retries_def)
  then show "\<exists>r. invoke_handler loads env ev db = (Inr r, db) \<and> statusCode r = 500"
    by (simp add: failure_response_def)
qed

theorem invoke_retry_single_write_witness:
  "(\<exists>r db' turn.
      invoke_handler example_loads example_invoke_env example_event empty_dynamo = (Inr r, db') \<and>
      statusCode r = 200 \<and> put_calls db' = [turn] \<and> table db' = [turn])
   \<and> (\<exists>r. invoke_handler example_loads failing_invoke_env example_event empty_dynamo =
          (Inr r, empty_dynamo) \<and> statusCode r = 500)"
proof -
  have body: "ev_body example_event =
      Some (Inr (JObj [(''message'', JStr ''hello''), (''sessionId'', JStr ''s1'')]))"
    by (simp add: example_event_def)
  have two: "\<forall>i. i < 2 \<longrightarrow> attempt_error example_invoke_env i \<noteq> None"
    using example_attempts(1,2) by (auto simp: less_Suc_eq numeral_2_eq_2)
  have conf: "store_configured example_invoke_env"
    "put_item_error example_invoke_env turn = None" for turn
    by (simp_all add: store_configured_def example_invoke_env_def)
  have all: "\<forall>i. i < 5 \<longrightarrow> attempt_error failing_invoke_env i \<noteq> None"
    by (simp add: attempt_error_def run_attempt_def failing_invoke_env_def)
  have 1: "\<exists>r db' turn.
      invoke_handler example_loads example_invoke_env example_event empty_dynamo = (Inr r, db') \<and>
      statusCode r = 200 \<and> put_calls db' = [turn] \<and> table db' = [turn]"
    using invoke_retry_single_write
      [of example_event "[(''message'', JStr ''hello''), (''sessionId'', JStr ''s1'')]"
          "JStr ''hello''" 2 example_invoke_env example_loads empty_dynamo]
      body two example_attempts(3) conf
    by (simp add: empty_dynamo_def)
  have 2: "\<exists>r. invoke_handler example_loads failing_invoke_env example_event empty_dynamo =
          (Inr r, empty_dynamo) \<and> statusCode r = 500"
    using invoke_retry_single_write
      [of example_event "[(''message'', JStr ''hello''), (''sessionId'', JStr ''s1'')]"
          "JStr ''hello''" _ failing_invoke_env example_loads empty_dynamo]
      body all
    by simp
  from 1 2 show ?thesis by blast
qed

text \<open>
  The claim as stated fails where CONVERSATION\_TABLE is not set: the first attempt
  succeeds, the handler answers 200, and no Conversation Turn is written or put. It also
  fails where the table is configured and \<open>put_item\<close> raises: the handler answers 200
  and the table holds no Conversation Turn.
\<close>

theorem invoke_unconfigured_no_write:
  "attempt_error unconfigured_invoke_env 0 = None \<and>
   fst (invoke_handler example_loads unconfigured_invoke_env example_event empty_dynamo) =
     Inr (success_response ''Hello'' [] (JStr ''s1'')) \<and>
   statusCode (success_response ''Hello'' [] (JStr ''s1'')) = 200 \<and>
   table (snd (invoke_handler example_loads unconfigured_invoke_env example_event empty_dynamo)) = [] \<and>
   put_calls (snd (invoke_handler example_loads unconfigured_invoke_env example_event
                     empty_dynamo)) = [] \<and>
   attempt_error throttled_invoke_env 0 = None \<and>
   fst (invoke_handler example_loads throttled_invoke_env example_event empty_dynamo) =
     Inr (success_response ''Hello'' [] (JStr ''s1'')) \<and>
   table (snd (invoke_handler example_loads throttled_invoke_env example_event empty_dynamo)) = []"
  by (simp add: invoke_handler_def example_event_def unconfigured_invoke_env_def
      throttled_invoke_env_def empty_dynamo_def retry_loop.simps run_attempt_def
      attempt_error_def max_retries_def save_conversation_def success_response_def Let_def)

text \<open>
  Claim C8. \<open>full_response\<close> and \<open>thinking_steps\<close> are set once before the loop. When
  the first \<open>k\<close> attempts raise and the next one succeeds, the handler answers 200, and
  the entry \<open>response\<close> of the body is the text the failed attempts streamed before
  raising, in order, followed by the text of the successful attempt; likewise the entry
  \<open>thinkingSteps\<close> for the rationale steps. When the store is configured, the
  Conversation Turn handed to \<open>put_item\<close> (and stored, when the put does not raise) has
  the same text under \<open>response\<close> and the same steps under \<open>thinkingSteps\<close>.
\<close>

theorem invoke_accumulates_across_attempts:
  "ev_body ev = Some (Inr (JObj kvs)) \<and> map_of kvs ''message'' = Some msg \<and> truthy msg \<and>
   k < 5 \<and> (\<forall>i. i < k \<longrightarrow> attempt_error env i \<noteq> None) \<and> attempt_error env k = None \<longrightarrow>
   (\<exists>r db'.
      invoke_handler loads env ev db = (Inr r, db') \<and> statusCode r = 200 \<and>
      resp_body r =
        JObj [(''response'',
               JStr (concat (map (attempt_text env) [0..<k]) @ attempt_text env k)),
              (''thinkingSteps'',
               JArr (map JStr (concat (map (attempt_steps env) [0..<k]) @ attempt_steps env k))),
              (''sessionId'', session_of env kvs)] \<and>
      (store_configured env \<longrightarrow>
         (\<exists>turn.
            put_calls db' = put_calls db @ [turn] \<and>
            (put_item_error env turn = None \<longrightarrow> table db' = table db @ [turn]) \<and>
            map_of turn ''response'' =
              Some (JStr (concat (map (attempt_text env) [0..<k]) @ attempt_text env k)) \<and>
            map_of turn ''thinkingSteps'' =
              Some (JArr (map JStr (concat (map (attempt_steps env) [0..<k]) @
                                     attempt_steps env k))))))"
proof
  assume a: "ev_body ev = Some (Inr (JObj kvs)) \<and> map_of kvs ''message'' = Some msg \<and>
    truthy msg \<and> k < 5 \<and> (\<forall>i. i < k \<longrightarrow> attempt_error env i \<noteq> None) \<and>
    attempt_error env k = None"
  let ?T = "concat (map (attempt_text env) [0..<k]) @ attempt_text env k"
  let ?S = "concat (map (attempt_steps env) [0..<k]) @ attempt_steps env k"
  let ?u = "extract_user_details loads ev"
  let ?turn = "conversation_item env ?u (session_of env kvs) msg ?T ?S"
  let ?db = "save_conversation env ?u (session_of env kvs) msg ?T ?S db"
  have h: "invoke_handler loads env ev db = (Inr (success_response ?T ?S (session_of env kvs)), ?db)"
    using invoke_handler_success [of ev kvs msg k env loads db] a
    by (simp add: max_retries_def)
  have r: "statusCode (success_response ?T ?S (session_of env kvs)) = 200"
    "resp_body (success_response ?T ?S (session_of env kvs)) =
       JObj [(''response'', JStr ?T), (''thinkingSteps'', JArr (map JStr ?S)),
             (''sessionId'', session_of env kvs)]"
    by (simp_all add: success_response_def)
  have t: "map_of ?turn ''response'' = Some (JStr ?T)"
    "map_of ?turn ''thinkingSteps'' = Some (JArr (map JStr ?S))"
    by (simp_all add: conversation_item_def)
  have s: "store_configured env \<longrightarrow>
      put_calls ?db = put_calls db @ [?turn] \<and>
      (put_item_error env ?turn = None \<longrightarrow> table ?db = table db @ [?turn])"
    using save_conversation_cases [of env ?u "session_of env kvs" msg ?T ?S db] by simp
  have st: "store_configured env \<longrightarrow>
      (\<exists>turn. put_calls ?db = put_calls db @ [turn] \<and>
         (put_item_error env turn = None \<longrightarrow> table ?db = table db @ [turn]) \<and>
         map_of turn ''response'' = Some (JStr ?T) \<and>
         map_of turn ''thinkingSteps'' = Some (JArr (map JStr ?S)))"
  proof
    assume "store_configured env"
    with s t show "\<exists>turn. put_calls ?db = put_calls db @ [turn] \<and>
         (put_item_error env turn = None \<longrightarrow> table ?db = table db @ [turn]) \<and>
         map_of turn ''response'' = Some (JStr ?T) \<and>
         map_of turn ''thinkingSteps'' = Some (JArr (map JStr ?S))"
      by (intro exI [of _ ?turn]) simp
  qed
  show "\<exists>r db'.
      invoke_handler loads env ev db = (Inr r, db') \<and> statusCode r = 200 \<and>
      resp_body r =
        JObj [(''response'', JStr ?T), (''thinkingSteps'', JArr (map JStr ?S)),
              (''sessionId'', session_of env kvs)] \<and>
      (store_configured env \<longrightarrow>
         (\<exists>turn.
            put_calls db' = put_calls db @ [turn] \<and>
            (put_item_error env turn = None \<longrightarrow> table db' = table db @ [turn]) \<and>
            map_of turn ''response'' = Some (JStr ?T) \<and>
            map_of turn ''thinkingSteps'' = Some (JArr (map JStr ?S))))"
  proof (intro exI conjI)
    show "invoke_handler loads env ev db =
        (Inr (success_response ?T ?S (session_of env kvs)), ?db)"
      by (rule h)
  qed (use r st in blast)+
qed

theorem invoke_accumulates_across_attempts_witness:
  "attempt_text example_invoke_env 0 = ''par'' \<and> attempt_text example_invoke_env 2 = ''Hello'' \<and>
   (\<exists>r turn.
      invoke_handler example_loads example_invoke_env example_event empty_dynamo =
        (Inr r, \<lparr>table = [turn], put_calls = [turn]\<rparr>) \<and>
      statusCode r = 200 \<and>
      resp_body r =
        JObj [(''response'', JStr ''parHello''), (''thinkingSteps'', JArr [JStr ''think'']),
              (''sessionId'', JStr ''s1'')] \<and>
      map_of turn ''response'' = Some (JStr ''parHello'') \<and>
      map_of turn ''thinkingSteps'' = Some (JArr [JStr ''think'']))"
proof -
  let ?kvs = "[(''message'', JStr ''hello''), (''sessionId'', JStr ''s1'')]"
  have body: "ev_body example_event = Some (Inr (JObj ?kvs))"
    by (simp add: example_event_def)
  have two: "\<forall>i. i < 2 \<longrightarrow> attempt_error example_invoke_env i \<noteq> None"
    using example_attempts(1,2) by (auto simp: less_Suc_eq numeral_2_eq_2)
  have conf: "store_configured example_invoke_env"
    "put_item_error example_invoke_env turn = None" for turn
    by (simp_all add: store_configured_def example_invoke_env_def)
  have upt_0_2: "[0..<2] = [0, 1::nat]"
    by code_simp
  have accs: "concat (map (attempt_text example_invoke_env) [0..<2]) @
      attempt_text example_invoke_env 2 = ''parHello''"
    "concat (map (attempt_steps example_invoke_env) [0..<2]) @
      attempt_steps example_invoke_env 2 = [''think'']"
    by (simp_all add: example_attempts upt_0_2)
  have sid: "session_of example_invoke_env ?kvs = JStr ''s1''"
    by (simp add: session_of_def)
  have "\<exists>r db'.
      invoke_handler example_loads example_invoke_env example_event empty_dynamo = (Inr r, db') \<and>
      statusCode r = 200 \<and>
      resp_body r =
        JObj [(''response'', JStr ''parHello''), (''thinkingSteps'', JArr (map JStr [''think''])),
              (''sessionId'', JStr ''s1'')] \<and>
      (\<exists>turn.
         put_calls db' = put_calls empty_dynamo @ [turn] \<and>
         table db' = table empty_dynamo @ [turn] \<and>
         map_of turn ''response'' = Some (JStr ''parHello'') \<and>
         map_of turn ''thinkingSteps'' = Some (JArr (map JStr [''think''])))"
    using invoke_accumulates_across_attempts
      [of example_event ?kvs "JStr ''hello''" 2 example_invoke_env example_loads empty_dynamo]
      body two example_attempts(3) conf
    unfolding accs sid by simp
  then obtain r db' turn where
    h: "invoke_handler example_loads example_invoke_env example_event empty_dynamo = (Inr r, db')"
      "statusCode r = 200"
      "resp_body r =
        JObj [(''response'', JStr ''parHello''), (''thinkingSteps'', JArr [JStr ''think'']),
              (''sessionId'', JStr ''s1'')]"
      "put_calls db' = [turn]" "table db' = [turn]"
      "map_of turn ''response'' = Some (JStr ''parHello'')"
      "map_of turn ''thinkingSteps'' = Some (JArr [JStr ''think''])"
    by (auto simp: empty_dynamo_def)
  from h(4,5) have "db' = \<lparr>table = [turn], put_calls = [turn]\<rparr>"
    by (cases db') simp
  with h example_attempts(4,6) show ?thesis
    by blast
qed

section \<open>The ingestion trigger\<close>

lemma split_chr_not_Nil: "split_chr sep s \<noteq> []"
  by (induction s) (auto split: list.splits)

lemma process_records_fold:
  "process_records env rs st = fold (process_record env) rs st"
  by (induction rs arbitrary: st) auto

lemma hr_key_parts: "\<not> length (split_chr (CHR ''/'') (''hr/'' @ rest)) < 2"
proof -
  have "split_chr (CHR ''/'') (''hr'' @ CHR ''/'' # rest) = ''hr'' # split_chr (CHR ''/'') rest"
    by (rule split_chr_append) simp
  moreover have "length (split_chr (CHR ''/'') rest) \<noteq> 0"
    using split_chr_not_Nil [of "CHR ''/''" rest] by simp
  ultimately show ?thesis by simp
qed

lemma hr_key_folder: "helpdesk_alias (key_folder (''hr/'' @ rest)) = ''hr''"
proof -
  have "split_chr (CHR ''/'') (''hr'' @ CHR ''/'' # rest) = ''hr'' # split_chr (CHR ''/'') rest"
    by (rule split_chr_append) simp
  then have "hd (split_chr (CHR ''/'') (''hr/'' @ rest)) = ''hr''"
    by simp
  moreover have "lower ''hr'' = ''hr''"
    by code_simp
  ultimately show ?thesis
    unfolding key_folder_def helpdesk_alias_def by simp
qed

lemma process_record_mapped:
  assumes "\<not> length (split_chr (CHR ''/'') key) < 2"
    and "helpdesk_alias (key_folder key) = folder"
    and "knowledge_bases_var env = Inr (JObj kvs)" and "map_of kvs folder = Some kb_id"
    and "truthy kb_id" and "list_data_sources_result env kb_id = Inr (JObj dkvs)"
    and "map_of dkvs ''dataSourceSummaries'' = Some (JArr (JObj skvs # others))"
    and "map_of skvs ''dataSourceId'' = Some ds_id"
  shows "process_record env (S3Object bucket_name key) st =
     call_start_ingestion_job env kb_id ds_id st"
  using assms unfolding process_record_def by simp

lemma process_record_effect:
  "process_record env r st = st \<or>
   (\<exists>kb ds. process_record env r st = call_start_ingestion_job env kb ds st)"
  unfolding process_record_def
  by (auto split: s3_record.splits sum.splits)

lemma call_start_ingestion_job_effect:
  "start_calls (call_start_ingestion_job env kb ds st) = start_calls st @ [(kb, ds)] \<and>
   started_jobs (call_start_ingestion_job env kb ds st) =
     (case start_ingestion_job_result env (length (start_calls st)) kb ds of
        Inl e \<Rightarrow> started_jobs st
      | Inr ingestion_job \<Rightarrow> started_jobs st @ [(kb, ds)])"
  unfolding call_start_ingestion_job_def by (simp split: sum.splits)

text \<open>
  Claim C7, as amended. A record whose key starts with \<open>hr/\<close>, where the published
  mapping gives \<open>hr\<close> a knowledge base and \<open>list_data_sources\<close> returns at least one
  summary for it, makes exactly one \<open>start_ingestion_job\<close> call, for that knowledge base
  and the id of its first data source; the call starts one ingestion job when the service
  accepts it, and none when it raises. A record whose folder the mapping does not hold,
  or whose knowledge base has no data source, makes no call and starts no job. No record
  makes more than one call. For every event with its list of records the handler answers
  200, and the records are processed one after the other, each from the state its
  predecessor left, so a skipped record changes nothing for the others.
\<close>

theorem trigger_starts_one_job_per_mapped_record:
  "(knowledge_bases_var env = Inr (JObj kvs) \<and> map_of kvs ''hr'' = Some kb_id \<and> truthy kb_id \<and>
    list_data_sources_result env kb_id = Inr (JObj dkvs) \<and>
    map_of dkvs ''dataSourceSummaries'' = Some (JArr (JObj skvs # others)) \<and>
    map_of skvs ''dataSourceId'' = Some ds_id
    \<longrightarrow> start_calls (process_record env (S3Object bucket_name (''hr/'' @ rest)) st) =
          start_calls st @ [(kb_id, ds_id)] \<and>
        started_jobs (process_record env (S3Object bucket_name (''hr/'' @ rest)) st) =
          (case start_ingestion_job_result env (length (start_calls st)) kb_id ds_id of
             Inl e \<Rightarrow> started_jobs st
           | Inr ingestion_job \<Rightarrow> started_jobs st @ [(kb_id, ds_id)]))
   \<and> (knowledge_bases_var env = Inr (JObj kvs') \<and>
       map_of kvs' (helpdesk_alias (key_folder key)) = None
    \<longrightarrow> process_record env (S3Object bucket_name' key) st = st)
   \<and> (knowledge_bases_var env = Inr (JObj kvs') \<and>
       map_of kvs' (helpdesk_alias (key_folder key)) = Some kb' \<and>
       list_data_sources_result env kb' = Inr (JObj dkvs') \<and>
       (map_of dkvs' ''dataSourceSummaries'' = None \<or>
        map_of dkvs' ''dataSourceSummaries'' = Some (JArr []))
    \<longrightarrow> process_record env (S3Object bucket_name' key) st = st)
   \<and> (process_record env r st = st \<or>
       (\<exists>kb ds. start_calls (process_record env r st) = start_calls st @ [(kb, ds)] \<and>
          (started_jobs (process_record env r st) = started_jobs st \<or>
           started_jobs (process_record env r st) = started_jobs st @ [(kb, ds)])))
   \<and> trigger_handler env (Some records) st =
       (Inr \<lparr>statusCode = 200, resp_headers = [], resp_body = JStr ''Processing complete''\<rparr>,
        fold (process_record env) records st)"
proof (intro conjI impI)
  assume a: "knowledge_bases_var env = Inr (JObj kvs) \<and> map_of kvs ''hr'' = Some kb_id \<and> truthy kb_id \<and>
    list_data_sources_result env kb_id = Inr (JObj dkvs) \<and>
    map_of dkvs ''dataSourceSummaries'' = Some (JArr (JObj skvs # others)) \<and>
    map_of skvs ''dataSourceId'' = Some ds_id"
  have p: "process_record env (S3Object bucket_name (''hr/'' @ rest)) st =
      call_start_ingestion_job env kb_id ds_id st"
    using a by (intro process_record_mapped [OF hr_key_parts hr_key_folder]) auto
  show "start_calls (process_record env (S3Object bucket_name (''hr/'' @ rest)) st) =
          start_calls st @ [(kb_id, ds_id)]"
    unfolding p using call_start_ingestion_job_effect [of env kb_id ds_id st] by simp
  show "started_jobs (process_record env (S3Object bucket_name (''hr/'' @ rest)) st) =
          (case start_ingestion_job_result env (length (start_calls st)) kb_id ds_id of
             Inl e \<Rightarrow> started_jobs st
           | Inr ingestion_job \<Rightarrow> started_jobs st @ [(kb_id, ds_id)])"
    unfolding p using call_start_ingestion_job_effect [of env kb_id ds_id st] by simp
next
  assume "knowledge_bases_var env = Inr (JObj kvs') \<and>
       map_of kvs' (helpdesk_alias (key_folder key)) = None"
  then show "process_record env (S3Object bucket_name' key) st = st"
    by (simp add: process_record_def)
next
  assume "knowledge_bases_var env = Inr (JObj kvs') \<and>
       map_of kvs' (helpdesk_alias (key_folder key)) = Some kb' \<and>
       list_data_sources_result env kb' = Inr (JObj dkvs') \<and>
       (map_of dkvs' ''dataSourceSummaries'' = None \<or>
        map_of dkvs' ''dataSourceSummaries'' = Some (JArr []))"
  then show "process_record env (S3Object bucket_name' key) st = st"
    by (auto simp add: process_record_def)
next
  from process_record_effect [of env r st]
  show "process_record env r st = st \<or>
       (\<exists>kb ds. start_calls (process_record env r st) = start_calls st @ [(kb, ds)] \<and>
          (started_jobs (process_record env r st) = started_jobs st \<or>
           started_jobs (process_record env r st) = started_jobs st @ [(kb, ds)]))"
  proof
    assume "process_record env r st = st"
    then show ?thesis by simp
  next
    assume "\<exists>kb ds. process_record env r st = call_start_ingestion_job env kb ds st"
    then obtain kb ds where p: "process_record env r st = call_start_ingestion_job env kb ds st"
      by blast
    have "start_calls (process_record env r st) = start_calls st @ [(kb, ds)] \<and>
          (started_jobs (process_record env r st) = started_jobs st \<or>
           started_jobs (process_record env r st) = started_jobs st @ [(kb, ds)])"
      unfolding p using call_start_ingestion_job_effect [of env kb ds st]
      by (simp split: sum.splits)
    then show ?thesis by blast
  qed
next
  show "trigger_handler env (Some records) st =
       (Inr \<lparr>statusCode = 200, resp_headers = [], resp_body = JStr ''Processing complete''\<rparr>,
        fold (process_record env) records st)"
    by (simp add: trigger_handler_def process_records_fold)
qed

theorem trigger_starts_one_job_per_mapped_record_witness:
  "process_record example_trigger_env (S3Object ''docs'' ''hr/policy.pdf'') no_ingestion =
     \<lparr>start_calls = [(JStr ''KB1'', JStr ''DS1'')], started_jobs = [(JStr ''KB1'', JStr ''DS1'')]\<rparr>
   \<and> process_record example_trigger_env (S3Object ''docs'' ''finance/q1.pdf'') no_ingestion =
       no_ingestion
   \<and> trigger_handler example_trigger_env
        (Some [S3Object ''docs'' ''finance/q1.pdf'', S3Object ''docs'' ''hr/policy.pdf'',
               MalformedRecord]) no_ingestion =
       (Inr \<lparr>statusCode = 200, resp_headers = [], resp_body = JStr ''Processing complete''\<rparr>,
        \<lparr>start_calls = [(JStr ''KB1'', JStr ''DS1'')],
         started_jobs = [(JStr ''KB1'', JStr ''DS1'')]\<rparr>)"
proof -
  let ?rs = "[S3Object ''docs'' ''finance/q1.pdf'', S3Object ''docs'' ''hr/policy.pdf'', MalformedRecord]"
  let ?one = "\<lparr>start_calls = [(JStr ''KB1'', JStr ''DS1'')],
               started_jobs = [(JStr ''KB1'', JStr ''DS1'')]\<rparr>"
  have f: "helpdesk_alias (key_folder ''finance/q1.pdf'') = ''finance''"
    by code_simp
  have "start_calls (process_record example_trigger_env (S3Object ''docs'' ''hr/policy.pdf'')
            no_ingestion) = [(JStr ''KB1'', JStr ''DS1'')]
      \<and> started_jobs (process_record example_trigger_env (S3Object ''docs'' ''hr/policy.pdf'')
            no_ingestion) = [(JStr ''KB1'', JStr ''DS1'')]"
    using trigger_starts_one_job_per_mapped_record
      [of example_trigger_env "[(''hr'', JStr ''KB1'')]" "JStr ''KB1''"
          "[(''dataSourceSummaries'',
                      JArr [JObj [(''dataSourceId'', JStr ''DS1'')],
                            JObj [(''dataSourceId'', JStr ''DS2'')]])]"
          "[(''dataSourceId'', JStr ''DS1'')]" "[JObj [(''dataSourceId'', JStr ''DS2'')]]"
          "JStr ''DS1''" "''docs''" "''policy.pdf''" no_ingestion]
    by (simp add: example_trigger_env_def no_ingestion_def)
  then have 1: "process_record example_trigger_env (S3Object ''docs'' ''hr/policy.pdf'')
      no_ingestion = ?one"
    by (cases "process_record example_trigger_env (S3Object ''docs'' ''hr/policy.pdf'') no_ingestion")
       simp
  have 2: "process_record example_trigger_env (S3Object ''docs'' ''finance/q1.pdf'') no_ingestion =
      no_ingestion"
    using trigger_starts_one_job_per_mapped_record
      [of example_trigger_env _ _ _ _ _ _ _ _ no_ingestion "[(''hr'', JStr ''KB1'')]"
          "''finance/q1.pdf''" "''docs''"]
    by (simp add: example_trigger_env_def f)
  have 3: "process_record example_trigger_env MalformedRecord st = st" for st
    by (simp add: process_record_def)
  have "trigger_handler example_trigger_env (Some ?rs) no_ingestion =
       (Inr \<lparr>statusCode = 200, resp_headers = [], resp_body = JStr ''Processing complete''\<rparr>,
        fold (process_record example_trigger_env) ?rs no_ingestion)"
    using trigger_starts_one_job_per_mapped_record [of example_trigger_env _ _ _ _ _ _ _ _ no_ingestion _ _ _ _ _ _ ?rs]
    by blast
  then have "trigger_handler example_trigger_env (Some ?rs) no_ingestion =
       (Inr \<lparr>statusCode = 200, resp_headers = [], resp_body = JStr ''Processing complete''\<rparr>, ?one)"
    using 1 2 3 by simp
  with 1 2 show ?thesis by blast
qed

text \<open>
  The claim as stated fails where the service refuses the call: the record's key starts
  with \<open>hr/\<close>, the mapping gives \<open>hr\<close> the knowledge base \<open>KB1\<close>, which has the data
  source \<open>DS1\<close>, and \<open>start_ingestion_job\<close> raises ConflictException. The \<open>except\<close>
  logs the error: the one call is made, no ingestion job is started, and the handler
  answers 200.
\<close>

theorem trigger_refused_call_starts_no_job:
  "knowledge_bases_var busy_trigger_env = Inr (JObj [(''hr'', JStr ''KB1'')]) \<and>
   list_data_sources_result busy_trigger_env (JStr ''KB1'') =
     Inr (JObj [(''dataSourceSummaries'', JArr [JObj [(''dataSourceId'', JStr ''DS1'')]])]) \<and>
   trigger_handler busy_trigger_env (Some [S3Object ''docs'' ''hr/policy.pdf'']) no_ingestion =
     (Inr \<lparr>statusCode = 200, resp_headers = [], resp_body = JStr ''Processing complete''\<rparr>,
      \<lparr>start_calls = [(JStr ''KB1'', JStr ''DS1'')], started_jobs = []\<rparr>)"
  by code_simp

section \<open>The upload handler\<close>












section \<open>The knowledge base provisioner\<close>

lemma start_call_always_made:
  "StartIngestionJob kb_id ds_id \<in> set (snd (start_ingestion_job env kb_id ds_id))"
  unfolding start_ingestion_job_def
  by (auto simp: Let_def split: sum.splits prod.splits)

lemma kb_wait_loop_failed:
  assumes "\<forall>i. get_knowledge_base_status env kb_id i = Inr ''FAILED''"
  shows "kb_wait_loop env kb_id i n = replicate n (GetKnowledgeBase kb_id)"
  using assms by (induction n arbitrary: i) (simp_all add: kb_check_def)

text \<open>
  Claim C4 does not hold on the code. The body of the wait raises on FAILED, DELETING and
  DELETED, but the \<open>except Exception\<close> of the same loop catches what it raises, so the
  loop goes on; after its ten checks \<open>start_ingestion_job\<close> starts the job all the same.
  With a knowledge base that reads FAILED at every check: ten status calls, then the
  \<open>StartIngestionJob\<close> call, and the job is returned.
\<close>

theorem start_ingestion_job_after_failed_kb:
  "kb_check failed_kb_env (JStr ''KB1'') 0 =
     Inl (PyError ''Exception'' ''Knowledge base in invalid state: FAILED'')
   \<and> start_ingestion_job failed_kb_env (JStr ''KB1'') (JStr ''DS1'') =
      (JObj [(''ingestionJobId'', JStr ''J1''), (''status'', JStr ''COMPLETE'')],
       replicate 10 (GetKnowledgeBase (JStr ''KB1'')) @
       [StartIngestionJob (JStr ''KB1'') (JStr ''DS1'')])"
proof -
  have w: "kb_wait_loop failed_kb_env (JStr ''KB1'') 0 10 = replicate 10 (GetKnowledgeBase (JStr ''KB1''))"
    by (rule kb_wait_loop_failed) (simp add: failed_kb_env_def)
  have m: "monitor_job failed_kb_env kb ds (JObj [(''ingestionJobId'', JStr ''J1''), (''status'', JStr ''COMPLETE'')]) 0 5 =
      (Inr (JObj [(''ingestionJobId'', JStr ''J1''), (''status'', JStr ''COMPLETE'')]), [])" for kb ds
    by (simp add: numeral_eq_Suc)
  have s: "start_ingestion_result failed_kb_env kb ds =
      Inr (JObj [(''ingestionJob'', JObj [(''ingestionJobId'', JStr ''J1''), (''status'', JStr ''COMPLETE'')])])" for kb ds
    by (simp add: failed_kb_env_def)
  have c: "kb_check failed_kb_env (JStr ''KB1'') 0 =
     Inl (PyError ''Exception'' ''Knowledge base in invalid state: FAILED'')"
    by (simp add: kb_check_def failed_kb_env_def)
  show ?thesis
    unfolding start_ingestion_job_def w
    by (simp add: c s m)
qed

lemma create_all_concat:
  "create_all env s a h cfgs acc = acc @ concat (map (created_of env s a h) cfgs)"
  by (induction cfgs arbitrary: acc) (auto simp: created_of_def split: sum.splits)

lemma failed_creates_nothing:
  assumes "create_knowledge_base env cfg = Inl e"
  shows "created_of env s a h cfg = []"
  using assms by (simp add: created_of_def process_kb_config_def split: sum.splits)

lemma created_of_folder:
  "entry \<in> set (created_of env s a h cfg) \<Longrightarrow> ckb_folder entry = kb_folder cfg"
  by (auto simp: created_of_def process_kb_config_def Let_def split: sum.splits)

lemma concat_removeAll_empty:
  assumes "f x = []"
  shows "concat (map f (removeAll x xs)) = concat (map f xs)"
  using assms by (induction xs) auto

lemma build_mapping_dom:
  "dom (build_mapping kbs m) = dom m \<union> (\<lambda>kb. kb_type (ckb_folder kb)) ` set kbs"
  by (induction kbs arbitrary: m) auto

lemma failed_kb_general:
  assumes fail: "create_knowledge_base env cfg = Inl e"
    and arn: "collection_arn \<noteq> []" and host: "collection_host \<noteq> []"
    and others: "removeAll cfg cfgs \<noteq> []"
    and types: "\<forall>c \<in> set cfgs. c \<noteq> cfg \<longrightarrow> kb_type (kb_folder c) \<noteq> kb_type (kb_folder cfg)"
  shows "\<exists>created m.
      kb_handler env s collection_arn collection_host cfgs = KbSuccess created m \<and>
      kb_handler env s collection_arn collection_host (removeAll cfg cfgs) = KbSuccess created m \<and>
      m (kb_type (kb_folder cfg)) = None"
proof -
  let ?created = "concat (map (created_of env s collection_arn collection_host) cfgs)"
  have same: "concat (map (created_of env s collection_arn collection_host) (removeAll cfg cfgs)) = ?created"
    by (rule concat_removeAll_empty) (rule failed_creates_nothing [OF fail])
  have ne: "cfgs \<noteq> []" using others by auto
  have "kb_type (kb_folder cfg) \<notin> (\<lambda>kb. kb_type (ckb_folder kb)) ` set ?created"
  proof
    assume "kb_type (kb_folder cfg) \<in> (\<lambda>kb. kb_type (ckb_folder kb)) ` set ?created"
    then obtain entry c where c: "c \<in> set cfgs"
      and en: "entry \<in> set (created_of env s collection_arn collection_host c)"
      and ty: "kb_type (kb_folder cfg) = kb_type (ckb_folder entry)"
      by auto
    from en failed_creates_nothing [OF fail, of s collection_arn collection_host]
    have "c \<noteq> cfg" by auto
    with types c have "kb_type (kb_folder c) \<noteq> kb_type (kb_folder cfg)" by simp
    with ty created_of_folder [OF en] show False by simp
  qed
  then have "kb_type (kb_folder cfg) \<notin> dom (build_mapping ?created Map.empty)"
    by (simp only: build_mapping_dom dom_empty Un_empty_left not_False_eq_True)
  then have none: "build_mapping ?created Map.empty (kb_type (kb_folder cfg)) = None"
    by (simp only: domIff not_not)
  show ?thesis
    using arn host ne others none
    by (simp add: kb_handler_def create_all_concat same Let_def)
qed

lemma kb_types_fixed:
  "map (\<lambda>c. kb_type (kb_folder c)) (knowledge_bases s) = domains"
proof -
  have "kb_type ''hr'' = ''hr''" "kb_type ''payroll'' = ''payroll''"
    "kb_type ''benefits'' = ''benefits''" "kb_type ''it_help_desk'' = ''helpdesk''"
    "kb_type ''training'' = ''training''"
    by code_simp+
  then show ?thesis by (simp add: knowledge_bases_def domains_def)
qed

lemma domains_distinct: "distinct domains"
  by (simp add: domains_def)

text \<open>
  Claim C3. For a configuration of the fixed list whose knowledge base creation raises
  after its retries, the handler still succeeds, the key of that domain (one of \<open>hr\<close>,
  \<open>payroll\<close>, \<open>benefits\<close>, \<open>helpdesk\<close>, \<open>training\<close>) is not in the mapping, and the
  entries created and the whole mapping are what the handler returns for the list
  without that configuration.
\<close>

theorem failed_kb_absent_from_mapping:
  assumes "cfg \<in> set (knowledge_bases uuid_suffix)"
    and "create_knowledge_base env cfg = Inl e"
    and "collection_arn \<noteq> []" and "collection_host \<noteq> []"
  shows "\<exists>created m.
      kb_handler env uuid_suffix collection_arn collection_host (knowledge_bases uuid_suffix) =
        KbSuccess created m \<and>
      kb_handler env uuid_suffix collection_arn collection_host
        (removeAll cfg (knowledge_bases uuid_suffix)) = KbSuccess created m \<and>
      kb_type (kb_folder cfg) \<in> set domains \<and>
      m (kb_type (kb_folder cfg)) = None"
proof -
  let ?cfgs = "knowledge_bases uuid_suffix"
  have dm: "distinct (map (\<lambda>c. kb_type (kb_folder c)) ?cfgs)"
    by (simp only: kb_types_fixed domains_distinct)
  then have inj: "inj_on (\<lambda>c. kb_type (kb_folder c)) (set ?cfgs)"
    by (simp add: distinct_map)
  have types: "\<forall>c \<in> set ?cfgs. c \<noteq> cfg \<longrightarrow> kb_type (kb_folder c) \<noteq> kb_type (kb_folder cfg)"
    using inj assms(1) by (auto dest: inj_onD)
  have dom: "kb_type (kb_folder cfg) \<in> set domains"
    using assms(1) kb_types_fixed [of uuid_suffix] by (metis image_eqI set_map)
  have "length (removeAll cfg ?cfgs) \<ge> 4"
  proof -
    have "distinct ?cfgs" using dm
      by (simp add: distinct_map)
    then have "length (removeAll cfg ?cfgs) = length ?cfgs - 1"
      using assms(1) by (simp add: distinct_remove1_removeAll [symmetric] length_remove1)
    then show ?thesis by (simp add: knowledge_bases_def)
  qed
  then have others: "removeAll cfg ?cfgs \<noteq> []" by auto
  from failed_kb_general [OF assms(2,3,4) others types, of uuid_suffix] dom
  show ?thesis by blast
qed

theorem failed_kb_absent_from_mapping_witness:
  "\<exists>created m.
      kb_handler hr_failing_env ''abcde'' ''arn:collection'' ''host'' (knowledge_bases ''abcde'') =
        KbSuccess created m \<and>
      kb_handler hr_failing_env ''abcde'' ''arn:collection'' ''host''
        (removeAll hr_config (knowledge_bases ''abcde'')) = KbSuccess created m \<and>
      m ''hr'' = None \<and> m ''payroll'' = Some (JStr ''KB-payroll'')"
proof -
  have mem: "hr_config \<in> set (knowledge_bases ''abcde'')"
    by (simp add: hr_config_def knowledge_bases_def)
  have fail: "create_knowledge_base hr_failing_env hr_config =
      Inl (PyError ''Exception'' ''Failed to create knowledge base eva_hr_kb_abcde after 5 attempts'')"
    by code_simp
  have ty: "kb_type (kb_folder hr_config) = ''hr''"
    by code_simp
  have pay: "(case kb_handler hr_failing_env ''abcde'' ''arn:collection'' ''host''
                (knowledge_bases ''abcde'') of
              KbSuccess c m \<Rightarrow> m ''payroll'' | KbFailed r \<Rightarrow> None) = Some (JStr ''KB-payroll'')"
    by code_simp
  from failed_kb_absent_from_mapping [OF mem fail, of "''arn:collection''" "''host''"]
  obtain created m where
    "kb_handler hr_failing_env ''abcde'' ''arn:collection'' ''host'' (knowledge_bases ''abcde'') =
        KbSuccess created m"
    "kb_handler hr_failing_env ''abcde'' ''arn:collection'' ''host''
        (removeAll hr_config (knowledge_bases ''abcde'')) = KbSuccess created m"
    "m ''hr'' = None"
    unfolding ty by auto
  with pay show ?thesis by auto
qed

section \<open>The supervisor composition\<close>

lemma quiet_Nil [simp]: "quiet []"
  by (simp add: quiet_def prepared_def associated_def)

lemma quiet_append [simp]: "quiet (a @ b) \<longleftrightarrow> quiet a \<and> quiet b"
  by (auto simp: quiet_def prepared_def associated_def)

lemma prepared_append [simp]: "prepared (a @ b) \<longleftrightarrow> prepared a \<or> prepared b"
  by (simp add: prepared_def)

lemma associated_append [simp]: "associated (a @ b) = associated a + associated b"
  by (simp add: associated_def)

lemma quiet_not_prepared: "quiet cs \<Longrightarrow> \<not> prepared cs"
  by (simp add: quiet_def)

lemma quiet_associated: "quiet cs \<Longrightarrow> associated cs = 0"
  by (simp add: quiet_def)

lemma api_log: "api c w = (r, w') \<Longrightarrow> call_log w' = call_log w @ [(c, r)]"
  by (auto simp: api_def split: list.splits)

lemma quiet_single:
  "quiet [(ListAgents, r)]" "quiet [(DeleteAgent a, r)]" "quiet [(GetAgent a, r)]"
  "quiet [(CreateAgent n c, r)]" "quiet [(ListAgentAliases a, r)]"
  "quiet [(GetAgentAlias x a, r)]" "quiet [(CreateAgentAlias a n, r)]"
  by (simp_all add: quiet_def prepared_def associated_def)

lemma quiet_step_refl [simp]: "quiet_step w w"
  by (simp add: quiet_step_def)

lemma quiet_step_trans: "quiet_step w w1 \<Longrightarrow> quiet_step w1 w2 \<Longrightarrow> quiet_step w w2"
  by (auto simp: quiet_step_def)

lemma api_quiet: "api c w = (r, w') \<Longrightarrow> quiet [(c, r)] \<Longrightarrow> quiet_step w w'"
  by (auto simp: quiet_step_def dest: api_log)

lemma list_agents_log: "list_agents w = (r, w') \<Longrightarrow> quiet_step w w'"
  unfolding list_agents_def
  by (auto split: prod.splits agent_response.splits intro: api_quiet simp: quiet_single)

lemma api_script:
  "api c w = (x, w1) \<Longrightarrow> \<forall>e. x \<noteq> Raises e \<Longrightarrow> length (script w1) < length (script w)"
  by (auto simp: api_def split: list.splits)

lemma wait_deleted_log: "wait_deleted a w = (r, w') \<Longrightarrow> quiet_step w w'"
proof (induction "length (script w)" arbitrary: w rule: less_induct)
  case less
  obtain x w1 where a: "api (GetAgent a) w = (x, w1)"
    by (cases "api (GetAgent a) w") auto
  then have l: "quiet_step w w1"
    by (rule api_quiet) (simp add: quiet_single)
  show ?case
  proof (cases "\<exists>e. x = Raises e")
    case True
    with less.prems a have "w' = w1"
      by (subst (asm) wait_deleted.simps) (auto split: exn.splits if_splits)
    with l show ?thesis by simp
  next
    case False
    with less.prems a have rec: "wait_deleted a w1 = (r, w')"
      by (subst (asm) wait_deleted.simps) (auto split: agent_response.splits)
    from False a have "length (script w1) < length (script w)"
      by (intro api_script) auto
    from less.hyps [OF this rec] l show ?thesis by (rule quiet_step_trans [rotated])
  qed
qed

lemma check_and_delete_log:
  assumes "check_and_delete_existing_agent n w = (r, w')"
  shows "quiet_step w w'"
proof -
  obtain x w1 where la: "list_agents w = (x, w1)"
    by (cases "list_agents w") auto
  then have s1: "quiet_step w w1" by (rule list_agents_log)
  show ?thesis
  proof (cases "\<exists>summaries agent_id. x = Inr summaries \<and>
      find_by_name n summaries = Some agent_id \<and> agent_id \<noteq> []")
    case False
    with assms la have "w' = w1"
      unfolding check_and_delete_existing_agent_def
      by (auto split: sum.splits option.splits if_splits)
    with s1 show ?thesis by simp
  next
    case True
    then obtain summaries agent_id where x: "x = Inr summaries"
      "find_by_name n summaries = Some agent_id" "agent_id \<noteq> []" by blast
    obtain y w2 where d: "api (DeleteAgent agent_id) w1 = (y, w2)"
      by (cases "api (DeleteAgent agent_id) w1") auto
    then have s2: "quiet_step w1 w2" by (rule api_quiet) (simp add: quiet_single)
    obtain z w3 where wd: "wait_deleted agent_id w2 = (z, w3)"
      by (cases "wait_deleted agent_id w2") auto
    then have s3: "quiet_step w2 w3" by (rule wait_deleted_log)
    from assms la x d wd have "w' = w2 \<or> w' = w3"
      unfolding check_and_delete_existing_agent_def
      by (auto split: agent_response.splits sum.splits)
    with s1 s2 s3 show ?thesis by (auto intro: quiet_step_trans)
  qed
qed

lemma create_agent_log: "create_agent n c w = (r, w') \<Longrightarrow> quiet_step w w'"
  unfolding create_agent_def
  by (auto split: prod.splits agent_response.splits intro: api_quiet simp: quiet_single)

lemma status_check_log: "status_check a ts w = (r, w') \<Longrightarrow> quiet_step w w'"
  unfolding status_check_def
  by (auto split: prod.splits agent_response.splits if_splits intro: api_quiet simp: quiet_single)

lemma wait_status_loop_log: "wait_status_loop a ts m i n w = (r, w') \<Longrightarrow> quiet_step w w'"
proof (induction n arbitrary: i w)
  case 0
  then show ?case by auto
next
  case (Suc n)
  obtain x w1 where s: "status_check a ts w = (x, w1)"
    by (cases "status_check a ts w") auto
  then have n1: "quiet_step w w1" by (rule status_check_log)
  from Suc.prems s have "w' = w1 \<or> wait_status_loop a ts m (i + 1) n w1 = (r, w')"
    by (auto split: sum.splits bool.splits if_splits)
  then show ?case
  proof
    assume "w' = w1"
    with n1 show ?thesis by simp
  next
    assume "wait_status_loop a ts m (i + 1) n w1 = (r, w')"
    from Suc.IH [OF this] n1 show ?thesis by (rule quiet_step_trans [rotated])
  qed
qed

lemma wait_for_agent_status_log: "wait_for_agent_status a ts m w = (r, w') \<Longrightarrow> quiet_step w w'"
  unfolding wait_for_agent_status_def by (rule wait_status_loop_log)

lemma descriptor_log:
  assumes "create_agent_alias_descriptor n w = (r, w')"
  shows "quiet_step w w'"
proof -
  obtain x w1 where la: "list_agents w = (x, w1)"
    by (cases "list_agents w") auto
  then have s1: "quiet_step w w1" by (rule list_agents_log)
  show ?thesis
  proof (cases "\<exists>summaries agent_id. x = Inr summaries \<and>
      find_by_name n summaries = Some agent_id \<and> agent_id \<noteq> []")
    case False
    with assms la have "w' = w1"
      unfolding create_agent_alias_descriptor_def
      by (auto split: sum.splits option.splits if_splits)
    with s1 show ?thesis by simp
  next
    case True
    then obtain summaries agent_id where x: "x = Inr summaries"
      "find_by_name n summaries = Some agent_id" "agent_id \<noteq> []" by blast
    obtain y w2 where d: "api (ListAgentAliases agent_id) w1 = (y, w2)"
      by (cases "api (ListAgentAliases agent_id) w1") auto
    then have s2: "quiet_step w1 w2" by (rule api_quiet) (simp add: quiet_single)
    have "w' = w2 \<or> (\<exists>alias_id z. api (GetAgentAlias alias_id agent_id) w2 = (z, w'))"
      using assms la x d unfolding create_agent_alias_descriptor_def
      by (auto split: agent_response.splits sum.splits option.splits prod.splits)
    then show ?thesis
    proof
      assume "w' = w2"
      with s1 s2 show ?thesis by (auto intro: quiet_step_trans)
    next
      assume "\<exists>alias_id z. api (GetAgentAlias alias_id agent_id) w2 = (z, w')"
      then obtain alias_id z where "api (GetAgentAlias alias_id agent_id) w2 = (z, w')" by blast
      then have "quiet_step w2 w'" by (rule api_quiet) (simp add: quiet_single)
      with s1 s2 show ?thesis by (auto intro: quiet_step_trans)
    qed
  qed
qed

lemma api_log_general:
  "api c w = (r, w') \<Longrightarrow> call_log w' = call_log w @ [(c, r)]"
  by (rule api_log)

lemma prepared_Cons [simp]: "prepared (x # xs) \<longleftrightarrow> is_prepare x \<or> prepared xs"
  by (simp add: prepared_def)

lemma associated_Cons [simp]:
  "associated (x # xs) = (if is_association x then 1 else 0) + associated xs"
  by (simp add: associated_def)

lemma is_association_ok:
  "\<forall>e. r \<noteq> Raises e \<Longrightarrow> is_association (AssociateAgentCollaborator s n a i, r)"
  by (cases r) auto

lemma associate_entry:
  "\<not> prepared [(AssociateAgentCollaborator s n a i, r)]"
  "associated [(AssociateAgentCollaborator s n a i, Raises e)] = 0"
  "\<forall>e. r \<noteq> Raises e \<Longrightarrow> associated [(AssociateAgentCollaborator s n a i, r)] = 1"
  by (cases r; simp add: prepared_def associated_def)+

lemma add_collaborators_loop_log:
  "add_collaborators_loop sid created agents cnt w = (r, w') \<Longrightarrow>
     \<exists>new. call_log w' = call_log w @ new \<and> \<not> prepared new \<and>
           (\<forall>n. r = Inr n \<longrightarrow> n = cnt + associated new)"
proof (induction agents arbitrary: cnt w)
  case Nil
  then show ?case by (auto simp: prepared_def associated_def)
next
  case (Cons agent agents)
  show ?case
  proof (cases "created (agent_name agent) = None")
    case True
    with Cons.prems have "add_collaborators_loop sid created agents cnt w = (r, w')"
      by simp
    from Cons.IH [OF this] show ?thesis .
  next
    case False
    obtain x w1 where d: "create_agent_alias_descriptor (agent_name agent) w = (x, w1)"
      by (cases "create_agent_alias_descriptor (agent_name agent) w") auto
    from descriptor_log [OF d] obtain new1 where
      n1: "call_log w1 = call_log w @ new1" "quiet new1"
      by (auto simp: quiet_step_def)
    then have q1: "\<not> prepared new1" "associated new1 = 0"
      by (simp_all add: quiet_def)
    show ?thesis
    proof (cases x)
      case (Inl e)
      with Cons.prems False d have "r = Inl e" "w' = w1" by auto
      with n1 q1 show ?thesis by auto
    next
      case (Inr desc)
      show ?thesis
      proof (cases desc)
        case None
        with Cons.prems False d Inr
        have "add_collaborators_loop sid created agents cnt w1 = (r, w')" by simp
        from Cons.IH [OF this] n1 q1 show ?thesis by auto
      next
        case (Some arn)
        let ?c = "AssociateAgentCollaborator sid (agent_name agent) arn
                    (collaboration_instruction (agent_name agent))"
        obtain y w2 where a: "api ?c w1 = (y, w2)"
          by (cases "api ?c w1") auto
        then have l2: "call_log w2 = call_log w1 @ [(?c, y)]" by (rule api_log)
        show ?thesis
        proof (cases "\<exists>e. y = Raises e")
          case True
          then obtain e where y: "y = Raises e" by blast
          with Cons.prems False d Inr Some a
          have "add_collaborators_loop sid created agents cnt w2 = (r, w')" by simp
          from Cons.IH [OF this] obtain new3 where
            "call_log w' = call_log w2 @ new3" "\<not> prepared new3"
            "\<forall>n. r = Inr n \<longrightarrow> n = cnt + associated new3" by blast
          with n1 q1 l2 y show ?thesis
            by (intro exI [of _ "new1 @ [(?c, y)] @ new3"]) (simp add: is_association_ok)
        next
          case False
          with Cons.prems \<open>created (agent_name agent) \<noteq> None\<close> d Inr Some a
          have "add_collaborators_loop sid created agents (cnt + 1) w2 = (r, w')"
            by (auto split: agent_response.splits)
          from Cons.IH [OF this] obtain new3 where
            "call_log w' = call_log w2 @ new3" "\<not> prepared new3"
            "\<forall>n. r = Inr n \<longrightarrow> n = cnt + 1 + associated new3" by blast
          with n1 q1 l2 False show ?thesis
            by (intro exI [of _ "new1 @ [(?c, y)] @ new3"]) (simp add: is_association_ok)
        qed
      qed
    qed
  qed
qed

lemma add_collaborators_log:
  assumes "add_collaborators_to_supervisor sid created agents w = (r, w')"
  shows "\<exists>new. call_log w' = call_log w @ new \<and> \<not> prepared new \<and>
           (\<forall>n. r = Inr n \<longrightarrow> n = associated new \<and> 0 < n)"
proof -
  obtain x w1 where l: "add_collaborators_loop sid created agents 0 w = (x, w1)"
    by (cases "add_collaborators_loop sid created agents 0 w") auto
  from add_collaborators_loop_log [OF l] obtain new where
    n: "call_log w1 = call_log w @ new" "\<not> prepared new"
       "\<forall>n. x = Inr n \<longrightarrow> n = 0 + associated new" by blast
  from assms l have "w' = w1" and "\<forall>n. r = Inr n \<longrightarrow> x = Inr n \<and> 0 < n"
    unfolding add_collaborators_to_supervisor_def
    by (auto split: sum.splits if_splits)
  with n show ?thesis by auto
qed

lemma wait_prepared_log:
  "wait_for_agent_prepared a w = (r, w') \<Longrightarrow> \<exists>l. call_log w' = call_log w @ l"
proof (induction "length (script w)" arbitrary: w rule: less_induct)
  case less
  obtain x w1 where a: "api (GetAgent a) w = (x, w1)"
    by (cases "api (GetAgent a) w") auto
  then have l: "call_log w1 = call_log w @ [(GetAgent a, x)]"
    by (rule api_log)
  from less.prems a have "w' = w1 \<or> ((\<forall>e. x \<noteq> Raises e) \<and> wait_for_agent_prepared a w1 = (r, w'))"
    by (subst (asm) wait_for_agent_prepared.simps) (auto split: agent_response.splits if_splits)
  then show ?case
  proof
    assume "w' = w1"
    with l show ?thesis by simp
  next
    assume rec: "(\<forall>e. x \<noteq> Raises e) \<and> wait_for_agent_prepared a w1 = (r, w')"
    with a have "length (script w1) < length (script w)"
      by (intro api_script) auto
    from less.hyps [OF this] rec l show ?thesis by auto
  qed
qed

lemma prepare_agent_log:
  "prepare_agent a w = (r, w') \<Longrightarrow> \<exists>new. call_log w' = call_log w @ new"
  unfolding prepare_agent_def
  by (auto split: prod.splits agent_response.splits dest!: api_log)

lemma supervisor_attempt_log:
  assumes "supervisor_attempt cfg created agents w = (r, w')"
  shows "\<exists>new. call_log w' = call_log w @ new \<and>
           (associated new = 0 \<longrightarrow> (\<exists>e. r = Inl e) \<and> \<not> prepared new) \<and>
           (\<forall>ids. r = Inr ids \<longrightarrow> 0 < associated new)"
proof -
  let ?name = "agent_name cfg"
  obtain x1 w1 where s1: "check_and_delete_existing_agent ?name w = (x1, w1)"
    by (cases "check_and_delete_existing_agent ?name w") auto
  from check_and_delete_log [OF s1] have q1: "quiet_step w w1" .
  show ?thesis
  proof (cases x1)
    case (Inl e)
    with assms s1 have "r = Inl e" "w' = w1" by (auto simp: supervisor_attempt_def)
    with q1 show ?thesis by (auto simp: quiet_step_def quiet_def)
  next
    case (Inr existing)
    obtain x2 w2 where s2: "create_agent ?name (Some ''SUPERVISOR'') w1 = (x2, w2)"
      by (cases "create_agent ?name (Some ''SUPERVISOR'') w1") auto
    from create_agent_log [OF s2] q1 have q2: "quiet_step w w2"
      by (auto intro: quiet_step_trans)
    show ?thesis
    proof (cases x2)
      case (Inl e)
      with assms s1 s2 \<open>x1 = Inr existing\<close> have "r = Inl e" "w' = w2"
        by (auto simp: supervisor_attempt_def)
      with q2 show ?thesis by (auto simp: quiet_step_def quiet_def)
    next
      case (Inr agent_id)
      note x2 = this
      obtain x3 w3 where s3:
        "wait_for_agent_status agent_id [''PREPARED'', ''NOT_PREPARED''] 30 w2 = (x3, w3)"
        by (cases "wait_for_agent_status agent_id [''PREPARED'', ''NOT_PREPARED''] 30 w2") auto
      from wait_for_agent_status_log [OF s3] q2 have q3: "quiet_step w w3"
        by (auto intro: quiet_step_trans)
      show ?thesis
      proof (cases x3)
        case (Inl e)
        with assms s1 s2 s3 \<open>x1 = Inr existing\<close> x2 have "r = Inl e" "w' = w3"
          by (auto simp: supervisor_attempt_def)
        with q3 show ?thesis by (auto simp: quiet_step_def quiet_def)
      next
        case (Inr u)
        note x3 = this
        obtain x4 w4 where s4:
          "add_collaborators_to_supervisor agent_id created agents w3 = (x4, w4)"
          by (cases "add_collaborators_to_supervisor agent_id created agents w3") auto
        from q3 obtain pre where pre: "call_log w3 = call_log w @ pre" "quiet pre"
          by (auto simp: quiet_step_def)
        from add_collaborators_log [OF s4] obtain mid where
          mid: "call_log w4 = call_log w3 @ mid" "\<not> prepared mid"
               "\<forall>n. x4 = Inr n \<longrightarrow> n = associated mid \<and> 0 < n" by blast
        show ?thesis
        proof (cases x4)
          case (Inl e)
          with assms s1 s2 s3 s4 \<open>x1 = Inr existing\<close> x2 x3 have "r = Inl e" "w' = w4"
            by (auto simp: supervisor_attempt_def)
          with pre mid show ?thesis
            by (intro exI [of _ "pre @ mid"]) (simp add: quiet_def)
        next
          case (Inr n)
          with mid have pos: "0 < associated mid" by auto
          obtain rest where "call_log w' = call_log w4 @ rest"
          proof -
            obtain x5 w5 where s5: "prepare_agent agent_id w4 = (x5, w5)"
              by (cases "prepare_agent agent_id w4") auto
            then obtain l5 where l5: "call_log w5 = call_log w4 @ l5"
              using prepare_agent_log by blast
            obtain x6 w6 where s6: "wait_for_agent_prepared agent_id w5 = (x6, w6)"
              by (cases "wait_for_agent_prepared agent_id w5") auto
            obtain x7 w7 where s7:
              "create_agent_alias agent_id (?name @ ''_alias'') w6 = (x7, w7)"
              by (cases "create_agent_alias agent_id (?name @ ''_alias'') w6") auto
            have "w' = w5 \<or> w' = w6 \<or> w' = w7"
              using assms s1 s2 s3 s4 s5 s6 s7 \<open>x1 = Inr existing\<close> x2 x3 Inr
              by (auto simp: supervisor_attempt_def split: sum.splits)
            moreover have "\<exists>l. call_log w6 = call_log w5 @ l"
              using wait_prepared_log [OF s6] .
            moreover have "\<exists>l. call_log w7 = call_log w6 @ l"
              using s7 unfolding create_agent_alias_def
              by (auto split: prod.splits agent_response.splits dest!: api_log)
            ultimately show ?thesis using l5 that by auto
          qed
          with pre mid pos show ?thesis
            by (intro exI [of _ "pre @ mid @ rest"]) simp
        qed
      qed
    qed
  qed
qed

lemma supervisor_attempts_log:
  "supervisor_attempts cfg created agents n w = (r, w') \<Longrightarrow>
     \<exists>new. call_log w' = call_log w @ new \<and>
           (associated new = 0 \<longrightarrow> (\<exists>e. r = Inl e) \<and> \<not> prepared new)"
proof (induction n arbitrary: w)
  case 0
  then show ?case by (auto simp: prepared_def associated_def)
next
  case (Suc n)
  obtain x w1 where a: "supervisor_attempt cfg created agents w = (x, w1)"
    by (cases "supervisor_attempt cfg created agents w") auto
  from supervisor_attempt_log [OF a] obtain new1 where
    n1: "call_log w1 = call_log w @ new1"
        "associated new1 = 0 \<longrightarrow> (\<exists>e. x = Inl e) \<and> \<not> prepared new1"
        "\<forall>ids. x = Inr ids \<longrightarrow> 0 < associated new1" by auto
  from Suc.prems a
  have "(r = x \<and> w' = w1) \<or> ((\<exists>e. x = Inl e) \<and> supervisor_attempts cfg created agents n w1 = (r, w'))"
    by (auto split: sum.splits if_splits)
  then show ?case
  proof
    assume "r = x \<and> w' = w1"
    with n1 show ?thesis by auto
  next
    assume "(\<exists>e. x = Inl e) \<and> supervisor_attempts cfg created agents n w1 = (r, w')"
    then have rec: "supervisor_attempts cfg created agents n w1 = (r, w')" by simp
    from Suc.IH [OF rec] obtain new2 where
      "call_log w' = call_log w1 @ new2"
      "associated new2 = 0 \<longrightarrow> (\<exists>e. r = Inl e) \<and> \<not> prepared new2" by auto
    with n1 show ?thesis
      by (intro exI [of _ "new1 @ new2"]) simp
  qed
qed

lemma example_attempt:
  "supervisor_attempt example_supervisor_config example_created_agents example_agent_configs
     example_agent_world =
   (Inl no_collaborators_error,
    \<lparr>script = [],
     call_log = [(ListAgents, AgentSummaries []),
                 (CreateAgent ''eva_supervisor_x'' (Some ''SUPERVISOR''), AgentCreated ''SUP''),
                 (GetAgent ''SUP'', AgentStatus ''NOT_PREPARED''),
                 (ListAgents, AgentSummaries [])]\<rparr>)"
  by code_simp

text \<open>
  Claim C2. When the loop of \<open>add_collaborators_to_supervisor\<close> ends with the count 0, the
  function raises. In every pass of the \<open>try\<close> block of \<open>create_supervisor_agent\<close>, and in
  every run of the whole function with its three attempts, on every script of service
  answers: if no \<open>associate_agent_collaborator\<close> call succeeded, the result is an
  exception and no \<open>prepare_agent\<close> call was made.
\<close>

theorem no_prepare_without_collaborators:
  "(add_collaborators_loop supervisor_id created agents 0 w = (Inr 0, w1) \<longrightarrow>
      add_collaborators_to_supervisor supervisor_id created agents w =
        (Inl no_collaborators_error, w1))
   \<and> (supervisor_attempt cfg created agents w = (r, w') \<longrightarrow>
        (\<exists>new. call_log w' = call_log w @ new \<and>
               (associated new = 0 \<longrightarrow> (\<exists>e. r = Inl e) \<and> \<not> prepared new)))
   \<and> (create_supervisor_agent cfg created agents w = (r2, w2) \<longrightarrow>
        (\<exists>new. call_log w2 = call_log w @ new \<and>
               (associated new = 0 \<longrightarrow> (\<exists>e. r2 = Inl e) \<and> \<not> prepared new)))"
proof (intro conjI impI)
  assume "add_collaborators_loop supervisor_id created agents 0 w = (Inr 0, w1)"
  then show "add_collaborators_to_supervisor supervisor_id created agents w =
        (Inl no_collaborators_error, w1)"
    by (simp add: add_collaborators_to_supervisor_def no_collaborators_error_def)
next
  assume "supervisor_attempt cfg created agents w = (r, w')"
  from supervisor_attempt_log [OF this]
  show "\<exists>new. call_log w' = call_log w @ new \<and>
               (associated new = 0 \<longrightarrow> (\<exists>e. r = Inl e) \<and> \<not> prepared new)"
    by auto
next
  assume "create_supervisor_agent cfg created agents w = (r2, w2)"
  then show "\<exists>new. call_log w2 = call_log w @ new \<and>
               (associated new = 0 \<longrightarrow> (\<exists>e. r2 = Inl e) \<and> \<not> prepared new)"
    unfolding create_supervisor_agent_def by (rule supervisor_attempts_log)
qed

theorem no_prepare_without_collaborators_witness:
  "(\<exists>w'. supervisor_attempt example_supervisor_config example_created_agents
           example_agent_configs example_agent_world = (Inl no_collaborators_error, w') \<and>
         associated (call_log w') = 0 \<and> \<not> prepared (call_log w'))
   \<and> (\<exists>e w'. create_supervisor_agent example_supervisor_config example_created_agents
           example_agent_configs example_agent_world = (Inl e, w') \<and>
         associated (call_log w') = 0 \<and> \<not> prepared (call_log w'))"
proof -
  let ?w = "\<lparr>script = [],
     call_log = [(ListAgents, AgentSummaries []),
                 (CreateAgent ''eva_supervisor_x'' (Some ''SUPERVISOR''), AgentCreated ''SUP''),
                 (GetAgent ''SUP'', AgentStatus ''NOT_PREPARED''),
                 (ListAgents, AgentSummaries [])]\<rparr>"
  have z: "associated (call_log ?w) = 0"
    by (simp add: associated_def)
  have e: "call_log example_agent_world = []"
    by (simp add: example_agent_world_def)
  from no_prepare_without_collaborators
    [of _ example_created_agents example_agent_configs example_agent_world _
        example_supervisor_config "Inl no_collaborators_error" ?w]
    example_attempt z e
  have 1: "\<not> prepared (call_log ?w)" by auto
  obtain r2 w2 where c: "create_supervisor_agent example_supervisor_config
      example_created_agents example_agent_configs example_agent_world = (r2, w2)"
    by (cases "create_supervisor_agent example_supervisor_config
      example_created_agents example_agent_configs example_agent_world") auto
  have z2: "associated (call_log w2) = 0"
  proof -
    have "associated (call_log (snd (create_supervisor_agent example_supervisor_config
      example_created_agents example_agent_configs example_agent_world))) = 0"
      by code_simp
    with c show ?thesis by simp
  qed
  from no_prepare_without_collaborators
    [of _ example_created_agents example_agent_configs example_agent_world _
        example_supervisor_config _ _ r2 w2] c z2 e
  have 2: "(\<exists>e. r2 = Inl e) \<and> \<not> prepared (call_log w2)" by auto
  from 1 2 z z2 c example_attempt show ?thesis by auto
qed

section \<open>Provisioning the policies and the collection twice\<close>

lemma policies_success_adds:
  assumes "create_policies_for_collection c enc net acc s = (Inr ok, s1)"
  shows "(''encryption'', enc) \<in> set (security_policies s1)"
  using assms unfolding create_policies_for_collection_def create_security_policy_def create_access_policy_def
  by (auto split: if_splits)

lemma batch_get_keeps_policies:
  "batch_get_collection n s = (r, s') \<Longrightarrow> security_policies s' = security_policies s"
  by (auto simp: batch_get_collection_def split: option.splits if_splits)

lemma wait_keeps_policies:
  "wait_while_creating n s = (r, s') \<Longrightarrow> security_policies s' = security_policies s"
proof (induction "creating_left n s" arbitrary: s rule: less_induct)
  case less
  obtain x s1 where b: "batch_get_collection n s = (x, s1)"
    by (cases "batch_get_collection n s") auto
  from less.prems b
  have "s' = s1 \<or> (creating_left n s1 < creating_left n s \<and> wait_while_creating n s1 = (r, s'))"
    by (subst (asm) wait_while_creating.simps)
       (auto simp: batch_get_collection_def creating_left_def
             split: sum.splits list.splits if_splits option.splits)
  then show ?case
  proof
    assume "s' = s1"
    with b show ?thesis by (simp add: batch_get_keeps_policies)
  next
    assume "creating_left n s1 < creating_left n s \<and> wait_while_creating n s1 = (r, s')"
    with less.hyps [of s1] batch_get_keeps_policies [OF b] show ?thesis by simp
  qed
qed

lemma create_or_get_keeps_policies:
  assumes "create_or_get_collection svc n region s = (r, s')"
  shows "security_policies s' = security_policies s"
proof -
  obtain x s1 where b: "batch_get_collection n s = (x, s1)"
    by (cases "batch_get_collection n s") auto
  then have p1: "security_policies s1 = security_policies s"
    by (rule batch_get_keeps_policies)
  obtain y s2 where c: "create_collection svc n s1 = (y, s2)"
    by (cases "create_collection svc n s1") auto
  then have p2: "security_policies s2 = security_policies s1"
    by (auto simp: create_collection_def split: option.splits)
  obtain z s3 where w: "wait_while_creating n s2 = (z, s3)"
    by (cases "wait_while_creating n s2") auto
  then have p3: "security_policies s3 = security_policies s2"
    by (rule wait_keeps_policies)
  from assms b c w have "s' = s1 \<or> s' = s2 \<or> s' = s3"
    unfolding create_or_get_collection_def
    by (auto simp: Let_def split: sum.splits list.splits exn.splits if_splits prod.splits)
  with p1 p2 p3 show ?thesis by auto
qed

lemma wait_keeps_collection:
  "wait_while_creating n s = (r, s') \<Longrightarrow> collections s n = Some c \<Longrightarrow>
     \<exists>c'. collections s' n = Some c' \<and> coll_id c' = coll_id c \<and> coll_arn c' = coll_arn c"
proof (induction "creating_left n s" arbitrary: s c rule: less_induct)
  case less
  obtain x s1 where b: "batch_get_collection n s = (x, s1)"
    by (cases "batch_get_collection n s") auto
  with less.prems(2) obtain c1 where c1: "collections s1 n = Some c1"
    "coll_id c1 = coll_id c" "coll_arn c1 = coll_arn c"
    by (auto simp: batch_get_collection_def split: if_splits)
  from less.prems(1) b
  have "s' = s1 \<or> (creating_left n s1 < creating_left n s \<and> wait_while_creating n s1 = (r, s'))"
    by (subst (asm) wait_while_creating.simps)
       (auto simp: batch_get_collection_def creating_left_def
             split: sum.splits list.splits if_splits option.splits)
  then show ?case
  proof
    assume "s' = s1"
    with c1 show ?thesis by simp
  next
    assume "creating_left n s1 < creating_left n s \<and> wait_while_creating n s1 = (r, s')"
    with less.hyps [of s1 c1] c1 show ?thesis by auto
  qed
qed

lemma create_or_get_again:
  assumes "create_or_get_collection svc n region s = (Inr ids, s1)"
  shows "fst (create_or_get_collection svc n region s1) = Inr ids"
proof -
  have known: "fst (create_or_get_collection svc n region s1) =
      Inr (coll_id c, coll_arn c, host_of (coll_id c) region)"
    if "collections s1 n = Some c" for c
    using that unfolding create_or_get_collection_def batch_get_collection_def
    by (simp add: Let_def)
  show ?thesis
  proof (cases "collections s n")
    case (Some c)
    with assms have "ids = (coll_id c, coll_arn c, host_of (coll_id c) region)"
      and "\<exists>c'. collections s1 n = Some c' \<and> coll_id c' = coll_id c \<and> coll_arn c' = coll_arn c"
      unfolding create_or_get_collection_def batch_get_collection_def
      by (auto simp: Let_def split: if_splits)
    with known show ?thesis by auto
  next
    case None
    let ?c = "\<lparr>coll_id = collection_id_for svc n, coll_arn = collection_arn_for svc n,
               coll_creating = creation_checks svc\<rparr>"
    let ?s2 = "s\<lparr>collections := (collections s)(n \<mapsto> ?c)\<rparr>"
    from None assms obtain u where w: "wait_while_creating n ?s2 = (Inr u, s1)"
      and ids: "ids = (collection_id_for svc n, collection_arn_for svc n,
                       host_of (collection_id_for svc n) region)"
      unfolding create_or_get_collection_def batch_get_collection_def create_collection_def
      by (auto simp: Let_def split: sum.splits prod.splits)
    from wait_keeps_collection [OF w, of ?c] obtain c' where
      "collections s1 n = Some c'" "coll_id c' = collection_id_for svc n"
      "coll_arn c' = collection_arn_for svc n" by auto
    with known [of c'] ids show ?thesis by simp
  qed
qed

text \<open>
  Claim C1 does not hold on the code. \<open>create_or_get_collection\<close> alone can be run again
  and answers the same identifiers. But the sequence starts with
  \<open>create_policies_for_collection\<close>, which creates the encryption policy without looking
  for it: in every state that a successful first run leaves, the second run with the same
  names raises the ConflictException of \<open>create_security_policy\<close> and returns no
  identifiers.
\<close>

theorem second_provisioning_run_conflicts:
  assumes "provision svc collection_name enc net acc region s = (Inr ids, s1)"
  shows "provision svc collection_name enc net acc region s1 =
     (Inl (conflict ''CreateSecurityPolicy'' enc), s1)"
proof -
  from assms obtain ok s0 where
    p: "create_policies_for_collection collection_name enc net acc s = (Inr ok, s0)"
    and c: "create_or_get_collection svc collection_name region s0 = (Inr ids, s1)"
    unfolding provision_def by (auto split: sum.splits prod.splits)
  from policies_success_adds [OF p] create_or_get_keeps_policies [OF c]
  have "(''encryption'', enc) \<in> set (security_policies s1)" by simp
  then show ?thesis
    by (simp add: provision_def create_policies_for_collection_def create_security_policy_def)
qed

theorem second_provisioning_run_conflicts_witness:
  "fst (provision example_service ''eva-collection-abcde'' ''eva-encryption-policy-abcde''
          ''eva-network-policy-abcde'' ''eva-access-policy-abcde'' ''us-east-1'' empty_aoss) =
     Inr (''id-eva-collection-abcde'',
          ''arn:aws:aoss:us-east-1:111122223333:collection/id-eva-collection-abcde'',
          ''id-eva-collection-abcde.us-east-1.aoss.amazonaws.com'')
   \<and> fst (provision example_service ''eva-collection-abcde'' ''eva-encryption-policy-abcde''
          ''eva-network-policy-abcde'' ''eva-access-policy-abcde'' ''us-east-1''
          (snd (provision example_service ''eva-collection-abcde''
                  ''eva-encryption-policy-abcde'' ''eva-network-policy-abcde''
                  ''eva-access-policy-abcde'' ''us-east-1'' empty_aoss))) =
     Inl (ClientError ''ConflictException'' ''CreateSecurityPolicy''
            ''Resource with name eva-encryption-policy-abcde already exists'')"
proof -
  let ?run = "provision example_service ''eva-collection-abcde'' ''eva-encryption-policy-abcde''
          ''eva-network-policy-abcde'' ''eva-access-policy-abcde'' ''us-east-1''"
  let ?ids = "(''id-eva-collection-abcde'',
          ''arn:aws:aoss:us-east-1:111122223333:collection/id-eva-collection-abcde'',
          ''id-eva-collection-abcde.us-east-1.aoss.amazonaws.com'')"
  have first: "fst (?run empty_aoss) = Inr ?ids"
    by code_simp
  then have "?run empty_aoss = (Inr ?ids, snd (?run empty_aoss))"
    by (metis prod.collapse)
  from second_provisioning_run_conflicts [OF this]
  have "fst (?run (snd (?run empty_aoss))) = Inl (conflict ''CreateSecurityPolicy'' ''eva-encryption-policy-abcde'')"
    by simp
  with first show ?thesis by (simp add: conflict_def)
qed

end
